theory Spec2Isabelle
  imports Complex_Main "HOL-Library.Word" "HOL-Library.Signed_Division"
begin

unbundle bit_operations_syntax

section \<open>Machine types\<close>

text \<open>
  The C integer types of \<^verbatim>\<open>esc_sensor.c\<close> are fixed-width words. A word is a bit
  pattern; where the source reads it as a signed number (\<^verbatim>\<open>int8_t\<close>, \<^verbatim>\<open>int16_t\<close>,
  \<^verbatim>\<open>int\<close>) the model uses \<open>sint\<close>, signed comparison and signed division, where it
  reads it as unsigned it uses \<open>unat\<close>. \<^verbatim>\<open>int\<close> is 32 bits wide on the target.
\<close>

type_synonym u8 = "8 word"
type_synonym u16 = "16 word"
type_synonym u32 = "32 word"

section \<open>Checksum unit\<close>

text \<open>
  \<^verbatim>\<open>updateCrc8\<close>, lines 330-340. The loop body is evaluated in \<^verbatim>\<open>int\<close> after integer
  promotion (\<open>crc_u << 1\<close> can reach 510) and truncated to eight bits by the assignment
  to the \<^verbatim>\<open>uint8_t\<close> variable.
\<close>

definition crcRound :: "u8 \<Rightarrow> u8" where
  "crcRound crc_u =
     (if (ucast crc_u :: u32) AND 0x80 \<noteq> 0
      then ucast (0x7 XOR push_bit 1 (ucast crc_u :: u32))
      else ucast (push_bit 1 (ucast crc_u :: u32)))"

fun crcRounds :: "nat \<Rightarrow> u8 \<Rightarrow> u8" where
  "crcRounds 0 crc_u = crc_u"
| "crcRounds (Suc n) crc_u = crcRounds n (crcRound crc_u)"

definition updateCrc8 :: "u8 \<Rightarrow> u8 \<Rightarrow> u8" where
  "updateCrc8 crc crc_seed = crcRounds 8 (crc XOR crc_seed)"

text \<open>
  \<^verbatim>\<open>calculateCrc8\<close>, lines 342-350: the loop \<^verbatim>\<open>for (i = 0; i < BufLen; i++)\<close> over the
  buffer, from the index \<open>i\<close> with the running value \<open>crc\<close>. The buffer is a list; the
  source must be called with \<open>BufLen\<close> at most its length.
\<close>

function crc8Loop :: "u8 list \<Rightarrow> nat \<Rightarrow> nat \<Rightarrow> u8 \<Rightarrow> u8" where
  "crc8Loop Buf BufLen i crc =
     (if i < BufLen then crc8Loop Buf BufLen (i + 1) (updateCrc8 (Buf ! i) crc) else crc)"
  by pat_completeness auto
termination
  by (relation "measure (\<lambda>(Buf, BufLen, i, crc). BufLen - i)") auto

definition calculateCrc8 :: "u8 list \<Rightarrow> u8 \<Rightarrow> u8" where
  "calculateCrc8 Buf BufLen = crc8Loop Buf (unat BufLen) 0 0"

text \<open>
  The algorithm in the words of the specification: seed 0; for each byte, XOR it into
  the running value, then eight rounds of: if the high bit is set, \<open>(value << 1) XOR 0x07\<close>,
  else \<open>value << 1\<close>, each round truncated to 8 bits (the arithmetic of \<open>8 word\<close>).
\<close>

definition crc8_spec_round :: "u8 \<Rightarrow> u8" where
  "crc8_spec_round v = (if bit v 7 then push_bit 1 v XOR 0x07 else push_bit 1 v)"

definition crc8_spec_byte :: "u8 \<Rightarrow> u8 \<Rightarrow> u8" where
  "crc8_spec_byte v b = (crc8_spec_round ^^ 8) (v XOR b)"

definition crc8_spec :: "u8 list \<Rightarrow> u8" where
  "crc8_spec bytes = foldl crc8_spec_byte 0 bytes"

section \<open>Data model\<close>

text \<open>
  \<^verbatim>\<open>escSensorData_t\<close> is declared in \<^verbatim>\<open>esc_sensor.h\<close>; the field types are those the
  source repeats in its comment at lines 590-595: \<^verbatim>\<open>uint8_t dataAge\<close>,
  \<^verbatim>\<open>int8_t temperature\<close>, \<^verbatim>\<open>int16_t voltage\<close>, \<^verbatim>\<open>int32_t current\<close>,
  \<^verbatim>\<open>int32_t consumption\<close>, \<^verbatim>\<open>int16_t rpm\<close>. Each field holds the stored bit pattern.
\<close>

record escSensorData_t =
  dataAge :: u8
  temperature :: u8
  voltage :: u16
  current :: u32
  consumption :: u32
  rpm :: u16

datatype escTlmFrameState_t =
  ESC_SENSOR_FRAME_PENDING | ESC_SENSOR_FRAME_COMPLETE | ESC_SENSOR_FRAME_FAILED

datatype escSensorTriggerState_t =
  ESC_SENSOR_TRIGGER_STARTUP | ESC_SENSOR_TRIGGER_READY | ESC_SENSOR_TRIGGER_PENDING

text \<open>
  The configured protocol: the two values the source compares
  \<^verbatim>\<open>escSensorConfig()->escSensorProtocol\<close> with, and every other value.
\<close>

datatype escSensorProtocol_t =
  ESC_SENSOR_PROTOCOL_KISS | ESC_SENSOR_PROTOCOL_HOBBYWINGV4 | ESC_SENSOR_PROTOCOL_OTHER

text \<open>
  What the file takes from its collaborators and from headers that are not part of the
  sources, as parameters: the motor count (\<^verbatim>\<open>getMotorCount()\<close>), the configuration,
  \<^verbatim>\<open>featureIsEnabled(FEATURE_ESC_SENSOR)\<close>, \<^verbatim>\<open>motorIsEnabled()\<close>, the pole count, the
  macros \<^verbatim>\<open>ESC_DATA_INVALID\<close>, \<^verbatim>\<open>ESC_BATTERY_AGE_MAX\<close> and \<^verbatim>\<open>ESC_SENSOR_COMBINED\<close> of
  \<^verbatim>\<open>esc_sensor.h\<close>, and the variable \<^verbatim>\<open>debugMode\<close> of \<^verbatim>\<open>build/debug.h\<close>.

  \<^verbatim>\<open>DEBUG_SET(mode, index, value)\<close> is \<^verbatim>\<open>if (debugMode == (mode)) debug[(index)] = (value)\<close>:
  the value argument is evaluated only in that mode. The array \<^verbatim>\<open>debug\<close> belongs to
  \<^verbatim>\<open>build/debug.c\<close> and is not part of the state below; what the evaluation of a value
  argument does to this file is: the counters incremented inside it (lines 543, 555, 610,
  614) and the call of \<^verbatim>\<open>calcEscRpm\<close> inside it (lines 375, 606), which can divide by zero.
\<close>

datatype debugMode_t =
  DEBUG_ESC_SENSOR | DEBUG_ESC_SENSOR_RPM | DEBUG_ESC_SENSOR_TMP | DEBUG_OTHER

record escEnv =
  motorCount :: u8
  escSensorProtocol :: escSensorProtocol_t
  featureEscSensor :: bool
  motorEnabled :: bool
  motorPoleCount :: u8
  ESC_DATA_INVALID :: u8
  ESC_BATTERY_AGE_MAX :: u8
  ESC_SENSOR_COMBINED :: u8
  debugMode :: debugMode_t

text \<open>
  The file's static variables. \<open>escSensorData\<close> is the array of
  \<^verbatim>\<open>MAX_SUPPORTED_MOTORS\<close> readings, \<open>telemetryBuffer\<close> the 10-byte KISS frame buffer
  (the pointer \<^verbatim>\<open>buffer\<close> only ever points to it), \<open>telemetryData\<close> the 18-byte
  Hobbywing packet. \<open>escSensorPortOpen\<close> is \<^verbatim>\<open>escSensorPort != NULL\<close>, and
  \<open>requestTelemetry\<close> the motors whose \<^verbatim>\<open>protocolControl.requestTelemetry\<close> was set.
  The \<^verbatim>\<open>float\<close> accumulator \<^verbatim>\<open>consumption\<close> of \<^verbatim>\<open>escSensorProcess\<close> has the abstract
  type \<open>'f\<close>: floating point is outside this embedding.
\<close>

record 'f escState =
  telemetryBuffer :: "u8 list"
  bufferSize :: u8
  bufferPosition :: u8
  escSensorPortOpen :: bool
  escSensorData :: "escSensorData_t list"
  escSensorTriggerState :: escSensorTriggerState_t
  escTriggerTimestamp :: u32
  escSensorMotor :: u8
  combinedEscSensorData :: escSensorData_t
  combinedDataNeedsUpdate :: bool
  totalTimeoutCount :: u16
  totalCrcErrorCount :: u16
  telemetryData :: "u8 list"
  bytesRead :: u8
  skipPackets :: u8
  lastProcessTimeMs :: u32
  consumptionAcc :: 'f
  requestTelemetry :: "u8 set"

datatype error = ArrayIndexOutOfBounds | DivisionByZero | SignedOverflow | FloatNotFinite

definition ESC_BOOTTIME :: u32 where
  "ESC_BOOTTIME = 5000"

definition ESC_REQUEST_TIMEOUT :: u32 where
  "ESC_REQUEST_TIMEOUT = 100"

definition TELEMETRY_FRAME_SIZE :: u8 where
  "TELEMETRY_FRAME_SIZE = 10"

text \<open>
  The static initialisers of the file (lines 114-132 and 404-406, and the two statics of
  \<^verbatim>\<open>escSensorProcess\<close>, lines 493-494). \<open>n\<close> is \<^verbatim>\<open>MAX_SUPPORTED_MOTORS\<close>, a macro of a
  header outside the sources, and \<open>z\<close> stands for the \<^verbatim>\<open>float\<close> \<^verbatim>\<open>0.0f\<close>.
\<close>

definition zeroData :: escSensorData_t where
  "zeroData =
     \<lparr>dataAge = 0, temperature = 0, voltage = 0, current = 0, consumption = 0, rpm = 0\<rparr>"

definition staticState :: "nat \<Rightarrow> 'f \<Rightarrow> 'f escState" where
  "staticState n z =
     \<lparr>telemetryBuffer = replicate 10 0, bufferSize = 0, bufferPosition = 0,
      escSensorPortOpen = False,
      escSensorData = replicate n zeroData,
      escSensorTriggerState = ESC_SENSOR_TRIGGER_STARTUP, escTriggerTimestamp = 0,
      escSensorMotor = 0,
      combinedEscSensorData = zeroData, combinedDataNeedsUpdate = True,
      totalTimeoutCount = 0, totalCrcErrorCount = 0,
      telemetryData = replicate 18 0, bytesRead = 0, skipPackets = 0,
      lastProcessTimeMs = 0, consumptionAcc = z, requestTelemetry = {}\<rparr>"

section \<open>Frame buffer and receive path\<close>

definition startEscDataRead :: "u8 \<Rightarrow> 'f escState \<Rightarrow> 'f escState" where
  "startEscDataRead frameLength s = s\<lparr>bufferPosition := 0, bufferSize := frameLength\<rparr>"

definition isFrameComplete :: "'f escState \<Rightarrow> bool" where
  "isFrameComplete s = (bufferPosition s = bufferSize s)"

definition escSensorDataReceive :: "u16 \<Rightarrow> 'f escState \<Rightarrow> 'f escState" where
  "escSensorDataReceive c s =
     (if isFrameComplete s then s
      else s\<lparr>telemetryBuffer := (telemetryBuffer s)[unat (bufferPosition s) := ucast c],
             bufferPosition := bufferPosition s + 1\<rparr>)"

text \<open>
  \<^verbatim>\<open>escSensorInit\<close>, lines 289-328. Whether \<^verbatim>\<open>findSerialPortConfig\<close> finds a port and
  whether \<^verbatim>\<open>openSerialPort\<close> returns one are arguments. Under KISS the staleness of every
  entry of the array is set to \<^verbatim>\<open>ESC_DATA_INVALID\<close>, under Hobbywing that of entry 0. The
  result is \<^verbatim>\<open>escSensorPort != NULL\<close>.
\<close>

definition escSensorInit :: "escEnv \<Rightarrow> bool \<Rightarrow> bool \<Rightarrow> 'f escState \<Rightarrow> bool \<times> 'f escState" where
  "escSensorInit env portConfigFound portOpens s =
     (if \<not> portConfigFound then (False, s)
      else case escSensorProtocol env of
        ESC_SENSOR_PROTOCOL_KISS \<Rightarrow>
          (portOpens,
           s\<lparr>escSensorPortOpen := portOpens,
             escSensorData := map (\<lambda>d. d\<lparr>dataAge := ESC_DATA_INVALID env\<rparr>) (escSensorData s)\<rparr>)
      | ESC_SENSOR_PROTOCOL_HOBBYWINGV4 \<Rightarrow>
          (portOpens,
           s\<lparr>escSensorPortOpen := portOpens,
             escSensorData := (escSensorData s)[0 :=
               (escSensorData s ! 0)\<lparr>dataAge := ESC_DATA_INVALID env\<rparr>]\<rparr>)
      | ESC_SENSOR_PROTOCOL_OTHER \<Rightarrow> (escSensorPortOpen s, s))"

section \<open>Arithmetic of int\<close>

text \<open>
  C's \<^verbatim>\<open>int\<close> multiplication and division on 32-bit patterns. Signed overflow and division
  by zero are undefined behaviour in C; the model returns them as errors. The quotient
  is truncated towards zero (\<open>sdiv\<close> on \<open>int\<close>).
\<close>

definition int_mul :: "u32 \<Rightarrow> u32 \<Rightarrow> error + u32" where
  "int_mul a b =
     (if - (2 ^ 31) \<le> sint a * sint b \<and> sint a * sint b < 2 ^ 31 then Inr (a * b)
      else Inl SignedOverflow)"

definition int_div :: "u32 \<Rightarrow> u32 \<Rightarrow> error + u32" where
  "int_div a b =
     (if b = 0 then Inl DivisionByZero
      else if sint a = - (2 ^ 31) \<and> sint b = - 1 then Inl SignedOverflow
      else Inr (word_of_int (sint a sdiv sint b)))"

section \<open>RPM converter\<close>

text \<open>
  \<^verbatim>\<open>calcEscRpm\<close>, lines 645-648: \<^verbatim>\<open>(erpm * 100) / (motorConfig()->motorPoleCount / 2)\<close>,
  all in \<^verbatim>\<open>int\<close>; the pole count is a \<^verbatim>\<open>uint8_t\<close> promoted to \<^verbatim>\<open>int\<close>.
\<close>

definition calcEscRpm :: "escEnv \<Rightarrow> u32 \<Rightarrow> error + u32" where
  "calcEscRpm env erpm =
     (case int_mul erpm 100 of
        Inl e \<Rightarrow> Inl e
      | Inr p \<Rightarrow>
          (case int_div (ucast (motorPoleCount env)) 2 of
             Inl e \<Rightarrow> Inl e
           | Inr d \<Rightarrow> int_div p d))"

section \<open>KISS decoder\<close>

text \<open>
  \<^verbatim>\<open>telemetryBuffer[a] << 8 | telemetryBuffer[b]\<close>: both bytes are promoted to \<^verbatim>\<open>int\<close>;
  the assignment to a field converts the result to the field's width.
\<close>

definition shl8_or :: "u8 \<Rightarrow> u8 \<Rightarrow> u32" where
  "shl8_or hi lo = push_bit 8 (ucast hi) OR ucast lo"

text \<open>
  The two \<^verbatim>\<open>DEBUG_SET\<close> lines that follow the stores of both decoders (lines 374-377 and
  605-608). Under \<^verbatim>\<open>escSensorMotor < 4\<close> and in debug mode \<^verbatim>\<open>DEBUG_ESC_SENSOR_RPM\<close> the first
  evaluates \<^verbatim>\<open>calcEscRpm(escSensorData[escSensorMotor].rpm) / 10\<close>: the \<^verbatim>\<open>int16_t\<close> field is
  promoted to \<^verbatim>\<open>int\<close>, and the call divides by half the pole count. The second reads a field.
  Neither changes the state of this file.
\<close>

definition debugSetRpm :: "escEnv \<Rightarrow> 'f escState \<Rightarrow> error + 'f escState" where
  "debugSetRpm env s =
     (if escSensorMotor s < 4 \<and> debugMode env = DEBUG_ESC_SENSOR_RPM then
        (case calcEscRpm env (scast (rpm (escSensorData s ! unat (escSensorMotor s)))) of
           Inl e \<Rightarrow> Inl e
         | Inr r \<Rightarrow> (case int_div r 10 of Inl e \<Rightarrow> Inl e | Inr v \<Rightarrow> Inr s))
      else Inr s)"

text \<open>
  The stores of \<^verbatim>\<open>decodeEscFrame\<close> on a frame with a valid checksum, lines 363-370. The
  assignments convert the \<^verbatim>\<open>int\<close> values to the width of the fields: \<^verbatim>\<open>int8_t\<close> for the
  temperature, \<^verbatim>\<open>int16_t\<close> for voltage and rpm, \<^verbatim>\<open>int32_t\<close> for current and consumption.
  The index \<open>escSensorMotor\<close> must lie inside the array; the theorems about the decoder
  assume it.
\<close>

definition storeEscFrame :: "'f escState \<Rightarrow> 'f escState" where
  "storeEscFrame s =
     s\<lparr>escSensorData := (escSensorData s)[unat (escSensorMotor s) :=
           (escSensorData s ! unat (escSensorMotor s))
             \<lparr>dataAge := 0,
              temperature := telemetryBuffer s ! 0,
              voltage := ucast (shl8_or (telemetryBuffer s ! 1) (telemetryBuffer s ! 2)),
              current := shl8_or (telemetryBuffer s ! 3) (telemetryBuffer s ! 4),
              consumption := shl8_or (telemetryBuffer s ! 5) (telemetryBuffer s ! 6),
              rpm := ucast (shl8_or (telemetryBuffer s ! 7) (telemetryBuffer s ! 8))\<rparr>],
       combinedDataNeedsUpdate := True\<rparr>"

text \<open>
  \<^verbatim>\<open>decodeEscFrame\<close>, lines 352-383. \<^verbatim>\<open>chksum\<close> and \<^verbatim>\<open>tlmsum\<close> are \<^verbatim>\<open>uint16_t\<close>.
\<close>

definition decodeEscFrame ::
  "escEnv \<Rightarrow> 'f escState \<Rightarrow> error + (escTlmFrameState_t \<times> 'f escState)" where
  "decodeEscFrame env s =
     (if \<not> isFrameComplete s then Inr (ESC_SENSOR_FRAME_PENDING, s)
      else
        let chksum = (ucast (calculateCrc8 (telemetryBuffer s) (TELEMETRY_FRAME_SIZE - 1)) :: u16);
            tlmsum = (ucast (telemetryBuffer s ! unat (TELEMETRY_FRAME_SIZE - 1)) :: u16)
        in if chksum = tlmsum then
             (case debugSetRpm env (storeEscFrame s) of
                Inl e \<Rightarrow> Inl e
              | Inr s1 \<Rightarrow> Inr (ESC_SENSOR_FRAME_COMPLETE, s1))
           else Inr (ESC_SENSOR_FRAME_FAILED, s))"

text \<open>\<^verbatim>\<open>increaseDataAge\<close>, lines 385-392.\<close>

definition increaseDataAge :: "escEnv \<Rightarrow> 'f escState \<Rightarrow> 'f escState" where
  "increaseDataAge env s =
     (if dataAge (escSensorData s ! unat (escSensorMotor s)) < ESC_DATA_INVALID env then
        s\<lparr>escSensorData := (escSensorData s)[unat (escSensorMotor s) :=
              (escSensorData s ! unat (escSensorMotor s))
                \<lparr>dataAge := dataAge (escSensorData s ! unat (escSensorMotor s)) + 1\<rparr>],
          combinedDataNeedsUpdate := True\<rparr>
      else s)"

text \<open>\<^verbatim>\<open>selectNextMotor\<close>, lines 394-400: the \<^verbatim>\<open>uint8_t\<close> index wraps at 256.\<close>

definition selectNextMotor :: "escEnv \<Rightarrow> 'f escState \<Rightarrow> 'f escState" where
  "selectNextMotor env s =
     (if escSensorMotor s + 1 = motorCount env then s\<lparr>escSensorMotor := 0\<rparr>
      else s\<lparr>escSensorMotor := escSensorMotor s + 1\<rparr>)"

section \<open>Hobbywing V4 stream parser\<close>

text \<open>
  \<^verbatim>\<open>processHWv4TelemetryStream\<close>, lines 408-435. The store
  \<^verbatim>\<open>telemetryData[bytesRead-1] = dataByte\<close> is inside the 18-byte array whenever
  \<open>bytesRead\<close> is between 1 and 18, which holds in every state the parser reaches from
  idle (\<open>hwInv\<close> and lemma \<open>hwInv_feed\<close> below).
\<close>

definition processHWv4TelemetryStream :: "u8 \<Rightarrow> 'f escState \<Rightarrow> bool \<times> 'f escState" where
  "processHWv4TelemetryStream dataByte s =
     (if skipPackets s > 0 then (False, s\<lparr>skipPackets := skipPackets s - 1\<rparr>)
      else if bytesRead s = 0 \<and> dataByte = 0x9B then (False, s\<lparr>bytesRead := 1\<rparr>)
      else if bytesRead s = 1 \<and> dataByte = 0x9B then
        (False, s\<lparr>bytesRead := 0, skipPackets := 11\<rparr>)
      else if bytesRead s > 0 then
        (if bytesRead s + 1 = 19 then
           (True, s\<lparr>telemetryData := (telemetryData s)[unat (bytesRead s) - 1 := dataByte],
                    bytesRead := 0\<rparr>)
         else
           (False, s\<lparr>telemetryData := (telemetryData s)[unat (bytesRead s) - 1 := dataByte],
                     bytesRead := bytesRead s + 1\<rparr>))
      else (False, s))"

text \<open>
  Feeding a byte sequence to the parser, one call per byte: the results of the calls in
  order, and the state after the last one.
\<close>

fun hwFeed :: "u8 list \<Rightarrow> 'f escState \<Rightarrow> bool list \<times> 'f escState" where
  "hwFeed [] s = ([], s)"
| "hwFeed (b # bs) s =
     (case processHWv4TelemetryStream b s of
        (r, s1) \<Rightarrow> (case hwFeed bs s1 of (rs, s2) \<Rightarrow> (r # rs, s2)))"

definition hwIdle :: "'f escState \<Rightarrow> bool" where
  "hwIdle s = (bytesRead s = 0 \<and> skipPackets s = 0)"

text \<open>
  The states the parser reaches from idle: while bytes are being skipped no packet is
  open, and an open packet has at most 17 bytes stored.
\<close>

definition hwInv :: "'f escState \<Rightarrow> bool" where
  "hwInv s = ((skipPackets s > 0 \<longrightarrow> bytesRead s = 0) \<and> bytesRead s \<le> 18)"

section \<open>Hobbywing V4 temperature calibration\<close>

text \<open>The local table \<^verbatim>\<open>tempFunc[26][2]\<close> of \<^verbatim>\<open>calcTempHW\<close>, lines 440-466.\<close>

definition tempFunc :: "(u16 \<times> u16) list" where
  "tempFunc =
     [(0, 1), (14, 2), (28, 3), (58, 5), (106, 8), (158, 11), (234, 15), (296, 18),
      (362, 21), (408, 23), (505, 27), (583, 30), (664, 33), (720, 35), (807, 38),
      (897, 41), (1021, 45), (1150, 49), (1315, 54), (1855, 70), (1978, 74), (2239, 82),
      (2387, 87), (2472, 90), (2656, 97), (2705, 99)]"

text \<open>
  The search loop, lines 472-476:
  \<^verbatim>\<open>while (i < 26 && tempRaw >= tempFunc[i][0]) i++\<close> with \<^verbatim>\<open>uint8_t i\<close>. The result is the
  value of \<open>i\<close> when the loop ends.
\<close>

function tempSearch :: "u16 \<Rightarrow> u8 \<Rightarrow> u8" where
  "tempSearch tempRaw i =
     (if i < 26 \<and> tempRaw \<ge> fst (tempFunc ! unat i) then tempSearch tempRaw (i + 1) else i)"
  by pat_completeness auto
termination
proof (relation "measure (\<lambda>(tempRaw, i). 26 - unat i)")
  show "wf (measure (\<lambda>(tempRaw, i). 26 - unat i))"
    by simp
next
  fix tempRaw :: u16 and i :: u8
  assume "i < 26 \<and> fst (tempFunc ! unat i) \<le> tempRaw"
  then have lt: "unat i < 26"
    by (simp add: word_less_nat_alt)
  then have "unat (i + 1) = unat i + 1"
    by (simp add: unat_word_ariths)
  with lt show "((tempRaw, i + 1), (tempRaw, i)) \<in> measure (\<lambda>(tempRaw, i). 26 - unat i)"
    by simp
qed

text \<open>
  A read of the table at an index computed in \<^verbatim>\<open>int\<close>: outside 0..25 the C program reads
  past the array, which the model returns as an error.
\<close>

definition tempFuncAt :: "int \<Rightarrow> error + (u16 \<times> u16)" where
  "tempFuncAt k = (if 0 \<le> k \<and> k < 26 then Inr (tempFunc ! nat k) else Inl ArrayIndexOutOfBounds)"

text \<open>
  \<^verbatim>\<open>calcTempHW\<close>, lines 437-478. The result is a \<^verbatim>\<open>float\<close>; the model gives the exact
  rational value of the returned expression
  \<^verbatim>\<open>y0 + (y1 - y0) * (float)(tempRaw - x0) / (x1 - x0)\<close> and does not model the rounding
  of single precision. The constants 0 and 100 and, at a breakpoint, the numerator
  \<^verbatim>\<open>(float)0\<close> are exact in both. The differences are taken in \<^verbatim>\<open>int\<close> after promotion.
\<close>

definition calcTempHW :: "u16 \<Rightarrow> error + rat" where
  "calcTempHW tempRaw =
     (if tempRaw > 3828 then Inr 0
      else if tempRaw < 1123 then Inr 100
      else
        let t = 3828 - tempRaw;
            i = tempSearch t 0
        in case tempFuncAt (uint i - 1) of
             Inl e \<Rightarrow> Inl e
           | Inr (x0, y0) \<Rightarrow>
               (case tempFuncAt (uint i) of
                  Inl e \<Rightarrow> Inl e
                | Inr (x1, y1) \<Rightarrow>
                    if uint x1 - uint x0 = 0 then Inl FloatNotFinite
                    else Inr (of_int (uint y0)
                              + of_int (uint y1 - uint y0) * of_int (uint t - uint x0)
                                / of_int (uint x1 - uint x0))))"

section \<open>Validity policy and accessors\<close>

text \<open>
  \<^verbatim>\<open>isEscSensorValid\<close>, lines 157-201. \<^verbatim>\<open>thisRPM\<close> is the rpm field read as \<^verbatim>\<open>uint16_t\<close>.
  \<open>hwAgeValid\<close> is the test of lines 192-196 and the final \<^verbatim>\<open>return 0\<close>, which both
  Hobbywing index cases reach.
\<close>

definition hwAgeValid :: "u8 \<Rightarrow> u16 \<Rightarrow> bool" where
  "hwAgeValid thisDataAge thisRPM =
     (if thisRPM > 0 \<and> thisDataAge < 11 then True
      else if thisRPM = 0 \<and> thisDataAge < 100 then True
      else False)"

definition isEscSensorValid :: "escEnv \<Rightarrow> 'f escState \<Rightarrow> u8 \<Rightarrow> bool" where
  "isEscSensorValid env s motorNumber =
     (if \<not> escSensorPortOpen s then False
      else case escSensorProtocol env of
        ESC_SENSOR_PROTOCOL_KISS \<Rightarrow>
          (if motorNumber < motorCount env then
             dataAge (escSensorData s ! unat motorNumber) \<le> ESC_BATTERY_AGE_MAX env
           else if motorNumber = ESC_SENSOR_COMBINED env then
             dataAge (combinedEscSensorData s) \<le> ESC_BATTERY_AGE_MAX env
           else False)
      | ESC_SENSOR_PROTOCOL_HOBBYWINGV4 \<Rightarrow>
          (if motorNumber < motorCount env then
             hwAgeValid (dataAge (escSensorData s ! unat motorNumber))
                        (rpm (escSensorData s ! unat motorNumber))
           else if motorNumber = ESC_SENSOR_COMBINED env then
             hwAgeValid (dataAge (combinedEscSensorData s)) (rpm (combinedEscSensorData s))
           else False)
      | ESC_SENSOR_PROTOCOL_OTHER \<Rightarrow> False)"

text \<open>
  \<^verbatim>\<open>getEscSensorRPM\<close>, lines 203-212. The function writes nothing; the model returns
  the state it leaves beside the value, so that this can be stated.
\<close>

definition getEscSensorRPM :: "escEnv \<Rightarrow> u8 \<Rightarrow> 'f escState \<Rightarrow> u16 \<times> 'f escState" where
  "getEscSensorRPM env motorNumber s =
     (if motorNumber < motorCount env then (rpm (escSensorData s ! unat motorNumber), s)
      else (0, s))"

text \<open>
  The aggregation of \<^verbatim>\<open>getEscSensorData\<close>, lines 228-247. \<^verbatim>\<open>MAX\<close> is the macro of
  \<^verbatim>\<open>common/maths.h\<close>, the greater of its two arguments: on \<^verbatim>\<open>uint8_t\<close> for the age, on
  \<^verbatim>\<open>int8_t\<close> for the temperature. The sums wrap at the width of the field.
\<close>

definition MAX_u8 :: "u8 \<Rightarrow> u8 \<Rightarrow> u8" where
  "MAX_u8 a b = (if a > b then a else b)"

definition MAX_s8 :: "u8 \<Rightarrow> u8 \<Rightarrow> u8" where
  "MAX_s8 a b = (if sint a > sint b then a else b)"

definition combineStep :: "escSensorData_t \<Rightarrow> escSensorData_t \<Rightarrow> escSensorData_t" where
  "combineStep c d =
     c\<lparr>dataAge := MAX_u8 (dataAge c) (dataAge d),
       temperature := MAX_s8 (temperature c) (temperature d),
       voltage := voltage c + voltage d,
       current := current c + current d,
       consumption := consumption c + consumption d,
       rpm := rpm c + rpm d\<rparr>"

function combineLoop :: "escEnv \<Rightarrow> nat \<Rightarrow> 'f escState \<Rightarrow> 'f escState" where
  "combineLoop env i s =
     (if i < unat (motorCount env) then
        combineLoop env (i + 1)
          (s\<lparr>combinedEscSensorData := combineStep (combinedEscSensorData s) (escSensorData s ! i)\<rparr>)
      else s)"
  by pat_completeness auto
termination
  by (relation "measure (\<lambda>(env, i, s). unat (motorCount env) - i)") auto

text \<open>
  What \<^verbatim>\<open>getEscSensorData\<close> returns a pointer to: one of the per-motor readings or the
  combined reading; \<open>None\<close> is \<^verbatim>\<open>NULL\<close>.
\<close>

datatype escSensorDataRef = MotorData nat | CombinedData

definition updateCombined :: "escEnv \<Rightarrow> 'f escState \<Rightarrow> error + 'f escState" where
  "updateCombined env s =
     (let s1 = combineLoop env 0
                 (s\<lparr>combinedEscSensorData :=
                      \<lparr>dataAge = 0, temperature = 0, voltage = 0, current = 0,
                       consumption = 0, rpm = 0\<rparr>\<rparr>);
          c = combinedEscSensorData s1
      in case int_div (scast (voltage c)) (ucast (motorCount env)) of
           Inl e \<Rightarrow> Inl e
         | Inr v \<Rightarrow>
             (case int_div (scast (rpm c)) (ucast (motorCount env)) of
                Inl e \<Rightarrow> Inl e
              | Inr r \<Rightarrow>
                  Inr (s1\<lparr>combinedEscSensorData := c\<lparr>voltage := ucast v, rpm := ucast r\<rparr>,
                          combinedDataNeedsUpdate := False\<rparr>)))"

text \<open>\<^verbatim>\<open>getEscSensorData\<close>, lines 216-272.\<close>

definition getEscSensorData ::
  "escEnv \<Rightarrow> u8 \<Rightarrow> 'f escState \<Rightarrow> error + (escSensorDataRef option \<times> 'f escState)" where
  "getEscSensorData env motorNumber s =
     (if \<not> featureEscSensor env then Inr (None, s)
      else case escSensorProtocol env of
        ESC_SENSOR_PROTOCOL_KISS \<Rightarrow>
          (if motorNumber < motorCount env then Inr (Some (MotorData (unat motorNumber)), s)
           else if motorNumber = ESC_SENSOR_COMBINED env then
             (if combinedDataNeedsUpdate s then
                (case updateCombined env s of
                   Inl e \<Rightarrow> Inl e
                 | Inr s1 \<Rightarrow> Inr (Some CombinedData, s1))
              else Inr (Some CombinedData, s))
           else Inr (None, s))
      | ESC_SENSOR_PROTOCOL_HOBBYWINGV4 \<Rightarrow>
          (if motorNumber < motorCount env then Inr (Some (MotorData 0), s)
           else if motorNumber = ESC_SENSOR_COMBINED env then Inr (Some (MotorData 0), s)
           else Inr (None, s))
      | ESC_SENSOR_PROTOCOL_OTHER \<Rightarrow> Inr (None, s))"

text \<open>The reading a returned pointer refers to.\<close>

definition deref :: "'f escState \<Rightarrow> escSensorDataRef \<Rightarrow> escSensorData_t" where
  "deref s r = (case r of MotorData i \<Rightarrow> escSensorData s ! i | CombinedData \<Rightarrow> combinedEscSensorData s)"

section \<open>The periodic entry point\<close>

text \<open>
  The \<^verbatim>\<open>PENDING\<close> case of the KISS state machine, lines 528-558. \<^verbatim>\<open>timeMs_t\<close> is
  \<^verbatim>\<open>uint32_t\<close>; the sum \<^verbatim>\<open>escTriggerTimestamp + ESC_REQUEST_TIMEOUT\<close> wraps.
\<close>

definition bumpCrcErrors :: "escEnv \<Rightarrow> 'f escState \<Rightarrow> 'f escState" where
  "bumpCrcErrors env s =
     (if debugMode env = DEBUG_ESC_SENSOR then s\<lparr>totalCrcErrorCount := totalCrcErrorCount s + 1\<rparr> else s)"

definition bumpTimeouts :: "escEnv \<Rightarrow> 'f escState \<Rightarrow> 'f escState" where
  "bumpTimeouts env s =
     (if debugMode env = DEBUG_ESC_SENSOR then s\<lparr>totalTimeoutCount := totalTimeoutCount s + 1\<rparr> else s)"

definition kissTriggerPending :: "escEnv \<Rightarrow> u32 \<Rightarrow> 'f escState \<Rightarrow> error + 'f escState" where
  "kissTriggerPending env currentTimeMs s =
     (if currentTimeMs < escTriggerTimestamp s + ESC_REQUEST_TIMEOUT then
        (case decodeEscFrame env s of
           Inl e \<Rightarrow> Inl e
         | Inr (ESC_SENSOR_FRAME_COMPLETE, s1) \<Rightarrow>
             Inr ((selectNextMotor env s1)\<lparr>escSensorTriggerState := ESC_SENSOR_TRIGGER_READY\<rparr>)
         | Inr (ESC_SENSOR_FRAME_FAILED, s1) \<Rightarrow>
             Inr (bumpCrcErrors env
                    ((selectNextMotor env (increaseDataAge env s1))
                       \<lparr>escSensorTriggerState := ESC_SENSOR_TRIGGER_READY\<rparr>))
         | Inr (ESC_SENSOR_FRAME_PENDING, s1) \<Rightarrow> Inr s1)
      else
        Inr (bumpTimeouts env
               ((selectNextMotor env (increaseDataAge env s))
                  \<lparr>escSensorTriggerState := ESC_SENSOR_TRIGGER_READY\<rparr>)))"

text \<open>The KISS branch of \<^verbatim>\<open>escSensorProcess\<close>, lines 507-559.\<close>

definition escSensorProcessKISS :: "escEnv \<Rightarrow> u32 \<Rightarrow> 'f escState \<Rightarrow> error + 'f escState" where
  "escSensorProcessKISS env currentTimeMs s =
     (case escSensorTriggerState s of
        ESC_SENSOR_TRIGGER_STARTUP \<Rightarrow>
          Inr (if currentTimeMs \<ge> ESC_BOOTTIME
               then s\<lparr>escSensorTriggerState := ESC_SENSOR_TRIGGER_READY\<rparr> else s)
      | ESC_SENSOR_TRIGGER_READY \<Rightarrow>
          Inr ((startEscDataRead TELEMETRY_FRAME_SIZE (s\<lparr>escTriggerTimestamp := currentTimeMs\<rparr>))
                 \<lparr>requestTelemetry := insert (escSensorMotor s) (requestTelemetry s),
                  escSensorTriggerState := ESC_SENSOR_TRIGGER_PENDING\<rparr>)
      | ESC_SENSOR_TRIGGER_PENDING \<Rightarrow> kissTriggerPending env currentTimeMs s)"

text \<open>
  The floating-point conversions of the Hobbywing branch (lines 582-585, 598-601 and
  622-623) are parameters of the model: the value each one stores, as a function of the
  raw field it is computed from, and the accumulation of the \<^verbatim>\<open>float\<close> consumption.
  \<open>hwTemperature\<close> is the \<^verbatim>\<open>float\<close> that \<^verbatim>\<open>calcTempHW\<close> returns, converted to \<^verbatim>\<open>int8_t\<close>.
\<close>

record 'f hwFloatOps =
  hwRpm :: "u32 \<Rightarrow> u16"
  hwVoltage :: "u16 \<Rightarrow> u16"
  hwCurrent :: "u16 \<Rightarrow> u32"
  hwTemperature :: "u16 \<Rightarrow> u8"
  hwAccumulate :: "'f \<Rightarrow> u32 \<Rightarrow> u32 \<Rightarrow> 'f"
  hwConsumption :: "'f \<Rightarrow> u32"

text \<open>The raw big-endian fields of the packet, lines 582-585.\<close>

definition hwRawRpm :: "u8 list \<Rightarrow> u32" where
  "hwRawRpm d = push_bit 16 (ucast (d ! 7)) OR push_bit 8 (ucast (d ! 8)) OR ucast (d ! 9)"

definition hwRaw16 :: "u8 list \<Rightarrow> nat \<Rightarrow> u16" where
  "hwRaw16 d k = ucast (shl8_or (d ! k) (d ! (k + 1)))"

text \<open>
  A ready packet, lines 582-610: the call of \<^verbatim>\<open>calcTempHW\<close> of line 585, whose read of its
  table can be out of bounds, the stores of lines 597-601, and the \<^verbatim>\<open>DEBUG_SET\<close> lines.
\<close>

definition hwStorePacket ::
  "escEnv \<Rightarrow> 'f hwFloatOps \<Rightarrow> 'f escState \<Rightarrow> error + 'f escState" where
  "hwStorePacket env fl s =
     (case calcTempHW (hwRaw16 (telemetryData s) 14) of
        Inl e \<Rightarrow> Inl e
      | Inr tempFET \<Rightarrow>
          (case debugSetRpm env
             (s\<lparr>escSensorData := (escSensorData s)[unat (escSensorMotor s) :=
                   (escSensorData s ! unat (escSensorMotor s))
                     \<lparr>dataAge := 0,
                      temperature := hwTemperature fl (hwRaw16 (telemetryData s) 14),
                      voltage := hwVoltage fl (hwRaw16 (telemetryData s) 10),
                      current := hwCurrent fl (hwRaw16 (telemetryData s) 12),
                      rpm := hwRpm fl (hwRawRpm (telemetryData s))\<rparr>]\<rparr>)
           of Inl e \<Rightarrow> Inl e
            | Inr s1 \<Rightarrow> Inr (bumpCrcErrors env s1)))"

text \<open>
  The drain loop, lines 570-616, over the bytes waiting in the serial port when the
  function is entered.
\<close>

fun hwDrain ::
  "escEnv \<Rightarrow> 'f hwFloatOps \<Rightarrow> u8 list \<Rightarrow> 'f escState \<Rightarrow> error + 'f escState" where
  "hwDrain env fl [] s = Inr s"
| "hwDrain env fl (b # bs) s =
     (case processHWv4TelemetryStream b s of
        (ready, s1) \<Rightarrow>
          (if ready then
             (case hwStorePacket env fl s1 of
                Inl e \<Rightarrow> Inl e
              | Inr s2 \<Rightarrow> hwDrain env fl bs (bumpTimeouts env s2))
           else hwDrain env fl bs (bumpTimeouts env s1)))"

text \<open>The Hobbywing branch of \<^verbatim>\<open>escSensorProcess\<close>, lines 561-626.\<close>

definition escSensorProcessHW ::
  "escEnv \<Rightarrow> 'f hwFloatOps \<Rightarrow> u32 \<Rightarrow> u8 list \<Rightarrow> 'f escState \<Rightarrow> error + 'f escState" where
  "escSensorProcessHW env fl currentTimeMs rx s =
     (let s1 = s\<lparr>escSensorMotor := 0\<rparr>;
          s2 = s1\<lparr>escSensorData := (escSensorData s1)[0 :=
                    (escSensorData s1 ! 0)\<lparr>dataAge := dataAge (escSensorData s1 ! 0) + 1\<rparr>]\<rparr>
      in case hwDrain env fl rx s2 of
           Inl e \<Rightarrow> Inl e
         | Inr s3 \<Rightarrow>
             (let acc = hwAccumulate fl (consumptionAcc s3) (currentTimeMs - lastProcessTimeMs s3)
                          (current (escSensorData s3 ! 0))
              in Inr (s3\<lparr>consumptionAcc := acc,
                         escSensorData := (escSensorData s3)[0 :=
                           (escSensorData s3 ! 0)\<lparr>consumption := hwConsumption fl acc\<rparr>],
                         lastProcessTimeMs := currentTimeMs\<rparr>)))"

text \<open>The end-of-cycle pass over every motor, lines 628-642.\<close>

definition zeroReading :: "escSensorData_t \<Rightarrow> escSensorData_t" where
  "zeroReading d = d\<lparr>voltage := 0, current := 0, consumption := 0, rpm := 0\<rparr>"

function zeroInvalidLoop :: "escEnv \<Rightarrow> nat \<Rightarrow> 'f escState \<Rightarrow> 'f escState" where
  "zeroInvalidLoop env i s =
     (if i < unat (motorCount env) then
        zeroInvalidLoop env (i + 1)
          (if \<not> isEscSensorValid env s (of_nat i) then
             s\<lparr>escSensorData := (escSensorData s)[i := zeroReading (escSensorData s ! i)],
               combinedEscSensorData := zeroReading (combinedEscSensorData s)\<rparr>
           else s)
      else s)"
  by pat_completeness auto
termination
  by (relation "measure (\<lambda>(env, i, s). unat (motorCount env) - i)") auto

text \<open>
  \<^verbatim>\<open>escSensorProcess\<close>, lines 490-643: the branch on the configured protocol (lines
  507-626), then the end-of-cycle pass. \<open>rx\<close> is the content of the serial receive buffer,
  which only the Hobbywing branch reads. \<^verbatim>\<open>timeUs_t\<close> is \<^verbatim>\<open>uint32_t\<close>.
\<close>

definition escSensorProcessProtocol ::
  "escEnv \<Rightarrow> 'f hwFloatOps \<Rightarrow> u32 \<Rightarrow> u8 list \<Rightarrow> 'f escState \<Rightarrow> error + 'f escState" where
  "escSensorProcessProtocol env fl currentTimeMs rx s =
     (case escSensorProtocol env of
        ESC_SENSOR_PROTOCOL_KISS \<Rightarrow> escSensorProcessKISS env currentTimeMs s
      | ESC_SENSOR_PROTOCOL_HOBBYWINGV4 \<Rightarrow> escSensorProcessHW env fl currentTimeMs rx s
      | ESC_SENSOR_PROTOCOL_OTHER \<Rightarrow> Inr s)"

definition escSensorProcess ::
  "escEnv \<Rightarrow> 'f hwFloatOps \<Rightarrow> u32 \<Rightarrow> u8 list \<Rightarrow> 'f escState \<Rightarrow> error + 'f escState" where
  "escSensorProcess env fl currentTimeUs rx s =
     (if \<not> escSensorPortOpen s \<or> \<not> motorEnabled env then Inr s
      else
        case escSensorProcessProtocol env fl (currentTimeUs div 1000) rx s of
          Inl e \<Rightarrow> Inl e
        | Inr s1 \<Rightarrow> Inr (zeroInvalidLoop env 0 s1))"

text \<open>
  The condition the end-of-cycle pass establishes: every motor that is not valid has
  voltage, current, consumption and rpm zero.
\<close>

definition invalidZeroed :: "escEnv \<Rightarrow> 'f escState \<Rightarrow> bool" where
  "invalidZeroed env s =
     (\<forall>j < unat (motorCount env).
        \<not> isEscSensorValid env s (of_nat j) \<longrightarrow>
        zeroReading (escSensorData s ! j) = escSensorData s ! j)"

section \<open>Runs of the entry points\<close>

text \<open>
  After \<^verbatim>\<open>escSensorInit\<close> the file is driven from outside through three functions that
  change its state: the scheduler calls \<^verbatim>\<open>escSensorProcess\<close> with the time, the serial
  driver calls \<^verbatim>\<open>escSensorDataReceive\<close> with a received byte, and the users of the readings
  call \<^verbatim>\<open>getEscSensorData\<close> with an index. (\<^verbatim>\<open>startEscDataRead\<close> is called from
  \<^verbatim>\<open>escSensorProcess\<close>; \<^verbatim>\<open>isEscSensorValid\<close>, \<^verbatim>\<open>getEscSensorRPM\<close> and \<^verbatim>\<open>calcEscRpm\<close> write
  nothing.) A run is a sequence of such calls, each on the state the one before left; it
  stops at the first undefined operation. The configuration is the same for all calls of
  a run.
\<close>

datatype event = Process u32 "u8 list" | Receive u16 | GetData u8

fun runEvent :: "escEnv \<Rightarrow> 'f hwFloatOps \<Rightarrow> event \<Rightarrow> 'f escState \<Rightarrow> error + 'f escState" where
  "runEvent env fl (Process currentTimeUs rx) s = escSensorProcess env fl currentTimeUs rx s"
| "runEvent env fl (Receive c) s = Inr (escSensorDataReceive c s)"
| "runEvent env fl (GetData motorNumber) s =
     (case getEscSensorData env motorNumber s of Inl e \<Rightarrow> Inl e | Inr (r, s1) \<Rightarrow> Inr s1)"

fun runEvents ::
  "escEnv \<Rightarrow> 'f hwFloatOps \<Rightarrow> event list \<Rightarrow> 'f escState \<Rightarrow> error + 'f escState" where
  "runEvents env fl [] s = Inr s"
| "runEvents env fl (e # es) s =
     (case runEvent env fl e s of Inl x \<Rightarrow> Inl x | Inr s1 \<Rightarrow> runEvents env fl es s1)"

text \<open>
  What holds of the state between the calls of a run that starts with \<^verbatim>\<open>escSensorInit\<close> on
  the static initialisers: the polled motor and the motor count are inside the array, and
  under KISS every motor that is not valid has its values zeroed, while under the other
  protocols, where nothing clears it, the invalidation flag is still set.
\<close>

definition pollingInv :: "escEnv \<Rightarrow> 'f escState \<Rightarrow> bool" where
  "pollingInv env s =
     (unat (motorCount env) \<le> length (escSensorData s) \<and>
      escSensorMotor s < motorCount env \<and>
      (if escSensorProtocol env = ESC_SENSOR_PROTOCOL_KISS then invalidZeroed env s
       else combinedDataNeedsUpdate s))"

section \<open>Example configurations and states\<close>

text \<open>
  Concrete inputs on which the theorems below are evaluated. The environment has four
  motors, 14 poles, and for the macros the values 255, 10 and 255. The float accumulator
  of the example states has type \<open>unit\<close>.
\<close>

definition kissEnv :: escEnv where
  "kissEnv =
     \<lparr>motorCount = 4, escSensorProtocol = ESC_SENSOR_PROTOCOL_KISS, featureEscSensor = True,
      motorEnabled = True, motorPoleCount = 14, ESC_DATA_INVALID = 255,
      ESC_BATTERY_AGE_MAX = 10, ESC_SENSOR_COMBINED = 255, debugMode = DEBUG_ESC_SENSOR\<rparr>"

definition hwEnv :: escEnv where
  "hwEnv = kissEnv\<lparr>motorCount := 1, escSensorProtocol := ESC_SENSOR_PROTOCOL_HOBBYWINGV4\<rparr>"

definition reading :: "u8 \<Rightarrow> u16 \<Rightarrow> escSensorData_t" where
  "reading age v =
     \<lparr>dataAge = age, temperature = 25, voltage = v, current = 120, consumption = 7, rpm = 90\<rparr>"

text \<open>
  A state of the KISS cycle waiting for motor 1, with a full frame buffer: temperature 30,
  voltage 1500, current 250, consumption 100, rpm 300, and the checksum 0xE2 of these
  nine bytes. The combined reading is the aggregate of the four readings and the flag is
  clear.
\<close>

definition kissState :: "unit escState" where
  "kissState =
     \<lparr>telemetryBuffer = [0x1E, 0x05, 0xDC, 0x00, 0xFA, 0x00, 0x64, 0x01, 0x2C, 0xE2],
      bufferSize = 10, bufferPosition = 10, escSensorPortOpen = True,
      escSensorData = [reading 0 1480, reading 3 1490, reading 0 1470, reading 1 1460],
      escSensorTriggerState = ESC_SENSOR_TRIGGER_PENDING, escTriggerTimestamp = 6000,
      escSensorMotor = 1,
      combinedEscSensorData =
        \<lparr>dataAge = 3, temperature = 25, voltage = 1475, current = 480, consumption = 28,
         rpm = 90\<rparr>,
      combinedDataNeedsUpdate = False,
      totalTimeoutCount = 0, totalCrcErrorCount = 0,
      telemetryData = replicate 18 0, bytesRead = 0, skipPackets = 0,
      lastProcessTimeMs = 0, consumptionAcc = (), requestTelemetry = {1}\<rparr>"


text \<open>
  The same state with a frame of nine bytes 0xFF and their checksum 0xD8: every field has
  its top bit set.
\<close>

definition kissSignedState :: "unit escState" where
  "kissSignedState =
     kissState\<lparr>telemetryBuffer := [0xFF, 0xFF, 0xFF, 0xFF, 0xFF, 0xFF, 0xFF, 0xFF, 0xFF, 0xD8]\<rparr>"

text \<open>
  A stand-in for the floating-point conversions, for closed statements about
  \<^verbatim>\<open>escSensorProcess\<close>; the KISS branch never calls them.
\<close>

definition zeroFloatOps :: "unit hwFloatOps" where
  "zeroFloatOps =
     \<lparr>hwRpm = (\<lambda>_. 0), hwVoltage = (\<lambda>_. 0), hwCurrent = (\<lambda>_. 0), hwTemperature = (\<lambda>_. 0),
      hwAccumulate = (\<lambda>acc _ _. acc), hwConsumption = (\<lambda>_. 0)\<rparr>"

text \<open>
  The static initialisers with an array of four readings, and the states after a
  successful \<^verbatim>\<open>escSensorInit\<close>: under Hobbywing, and under KISS followed by one read of the
  combined reading.
\<close>

definition staticInit :: "unit escState" where
  "staticInit = staticState 4 ()"

definition hwBootState :: "unit escState" where
  "hwBootState = snd (escSensorInit hwEnv True True staticInit)"

definition kissInitState :: "unit escState" where
  "kissInitState = snd (escSensorInit kissEnv True True staticInit)"

definition kissBootState :: "unit escState" where
  "kissBootState =
     kissInitState\<lparr>combinedEscSensorData := zeroData\<lparr>dataAge := 255\<rparr>,
                   combinedDataNeedsUpdate := False\<rparr>"

text \<open>
  A run under KISS after \<^verbatim>\<open>escSensorInit\<close>: one read of the combined reading, the call of
  \<^verbatim>\<open>escSensorProcess\<close> at 5000 ms that ends the startup wait, the call at 5010 ms that
  requests the telemetry of motor 0, and the ten bytes of the frame of \<open>kissState\<close> from
  the serial driver. \<open>kissPolledState\<close> is the state this run ends in.
\<close>

definition kissPollEvents :: "event list" where
  "kissPollEvents =
     [GetData 255, Process 5000000 [], Process 5010000 [],
      Receive 0x1E, Receive 0x05, Receive 0xDC, Receive 0x00, Receive 0xFA,
      Receive 0x00, Receive 0x64, Receive 0x01, Receive 0x2C, Receive 0xE2]"

definition kissPolledState :: "unit escState" where
  "kissPolledState =
     kissBootState\<lparr>telemetryBuffer := [0x1E, 0x05, 0xDC, 0x00, 0xFA, 0x00, 0x64, 0x01, 0x2C, 0xE2],
                   bufferSize := 10, bufferPosition := 10,
                   escSensorTriggerState := ESC_SENSOR_TRIGGER_PENDING,
                   escTriggerTimestamp := 5010, requestTelemetry := {0}\<rparr>"

text \<open>
  A run under KISS with a single motor, in which the motor answers twice with the same
  frame: the startup wait ends, the telemetry is requested, the frame arrives and is
  decoded, the combined reading is read, the telemetry is requested again and the same
  frame arrives. \<open>kissRepeatState\<close> is the state this run ends in: the reading of motor 0
  holds the values of the frame with staleness 0, the combined reading is up to date and
  the flag is clear.
\<close>

definition kissSoloEnv :: escEnv where
  "kissSoloEnv = kissEnv\<lparr>motorCount := 1\<rparr>"

definition kissFrameEvents :: "event list" where
  "kissFrameEvents =
     [Receive 0x1E, Receive 0x05, Receive 0xDC, Receive 0x00, Receive 0xFA,
      Receive 0x00, Receive 0x64, Receive 0x01, Receive 0x2C, Receive 0xE2]"

definition kissRepeatEvents :: "event list" where
  "kissRepeatEvents =
     [Process 5000000 [], Process 5010000 []] @ kissFrameEvents @
     [Process 5020000 [], GetData 255, Process 5030000 []] @ kissFrameEvents"

definition kissRepeatState :: "unit escState" where
  "kissRepeatState =
     \<lparr>telemetryBuffer = [0x1E, 0x05, 0xDC, 0x00, 0xFA, 0x00, 0x64, 0x01, 0x2C, 0xE2],
      bufferSize = 10, bufferPosition = 10, escSensorPortOpen = True,
      escSensorData =
        [\<lparr>dataAge = 0, temperature = 30, voltage = 1500, current = 250, consumption = 100,
          rpm = 300\<rparr>,
         zeroData\<lparr>dataAge := 255\<rparr>, zeroData\<lparr>dataAge := 255\<rparr>, zeroData\<lparr>dataAge := 255\<rparr>],
      escSensorTriggerState = ESC_SENSOR_TRIGGER_PENDING, escTriggerTimestamp = 5030,
      escSensorMotor = 0,
      combinedEscSensorData =
        \<lparr>dataAge = 0, temperature = 30, voltage = 1500, current = 250, consumption = 100,
         rpm = 300\<rparr>,
      combinedDataNeedsUpdate = False,
      totalTimeoutCount = 0, totalCrcErrorCount = 0,
      telemetryData = replicate 18 0, bytesRead = 0, skipPackets = 0,
      lastProcessTimeMs = 0, consumptionAcc = (), requestTelemetry = {0}\<rparr>"


text \<open>
  The equations of the loops are not simplification rules: they are unfolded where a
  proof asks for it.
\<close>

declare crc8Loop.simps [simp del]

declare tempSearch.simps [simp del]

declare combineLoop.simps [simp del]

declare zeroInvalidLoop.simps [simp del]

section \<open>The checksum: the source against the specified algorithm\<close>

lemma crc_hibit: "((ucast (v::u8) :: u32) AND 0x80 \<noteq> 0) = bit v 7"
proof -
  have "bit (ucast v :: u32) 7 = ((ucast v :: u32) AND push_bit 7 1 \<noteq> 0)"
    by (rule bit_iff_and_push_bit_not_eq_0)
  moreover have "bit (ucast v :: u32) 7 = bit v 7"
    by (simp add: bit_ucast_iff)
  moreover have "(push_bit 7 1 :: u32) = 0x80"
    by simp
  ultimately show ?thesis
    by simp
qed

lemma crc_shift: "(ucast (push_bit 1 (ucast (v::u8) :: u32)) :: u8) = push_bit 1 v"
  apply (rule bit_word_eqI)
  apply (simp only: bit_simps)
  apply auto
  done

lemma crc_shift_xor:
  "(ucast (0x7 XOR push_bit 1 (ucast (v::u8) :: u32)) :: u8) = push_bit 1 v XOR 0x07"
proof -
  have "(ucast (0x7 XOR push_bit 1 (ucast v :: u32)) :: u8)
      = ucast (0x7 :: u32) XOR ucast (push_bit 1 (ucast v :: u32))"
    by (rule bit_word_eqI) (auto simp only: bit_simps)
  also have "ucast (0x7 :: u32) = (0x07 :: u8)"
    by simp
  finally show ?thesis
    by (simp only: crc_shift xor.commute)
qed

lemma crcRound_spec: "crcRound v = crc8_spec_round v"
  unfolding crcRound_def crc8_spec_round_def
  by (simp only: crc_hibit crc_shift crc_shift_xor)

lemma crcRounds_funpow: "crcRounds n v = (crc8_spec_round ^^ n) v"
  by (induction n arbitrary: v) (simp_all add: crcRound_spec funpow_swap1)

lemma updateCrc8_spec: "updateCrc8 b crc = crc8_spec_byte crc b"
  by (simp add: updateCrc8_def crc8_spec_byte_def crcRounds_funpow xor.commute)

lemma crc8Loop_spec:
  "i \<le> n \<Longrightarrow> n \<le> length Buf \<Longrightarrow>
   crc8Loop Buf n i crc = foldl crc8_spec_byte crc (drop i (take n Buf))"
proof (induction Buf n i crc rule: crc8Loop.induct)
  case (1 Buf BufLen i crc)
  show ?case
  proof (cases "i < BufLen")
    case True
    with "1.prems" have il: "i < length (take BufLen Buf)"
      by simp
    have d: "drop i (take BufLen Buf) = Buf ! i # drop (Suc i) (take BufLen Buf)"
      using Cons_nth_drop_Suc [OF il] True by simp
    from True "1.prems" have "crc8Loop Buf BufLen (i + 1) (updateCrc8 (Buf ! i) crc)
        = foldl crc8_spec_byte (updateCrc8 (Buf ! i) crc) (drop (i + 1) (take BufLen Buf))"
      by (intro "1.IH") simp_all
    with True show ?thesis
      by (subst crc8Loop.simps) (simp add: d updateCrc8_spec)
  next
    case False
    with "1.prems" have "i = BufLen"
      by simp
    then show ?thesis
      by (subst crc8Loop.simps) simp
  qed
qed

text \<open>Evaluating the eight rounds on a concrete byte.\<close>

lemma crcRounds_8:
  "crcRounds 8 v =
   crcRound (crcRound (crcRound (crcRound (crcRound (crcRound (crcRound (crcRound v)))))))"
proof -
  have e: "(8::nat) = Suc (Suc (Suc (Suc (Suc (Suc (Suc (Suc 0)))))))"
    by simp
  show ?thesis
    unfolding e by (simp only: crcRounds.simps)
qed

lemmas crc8_eval = calculateCrc8_def crc8Loop.simps updateCrc8_def crcRounds_8 crcRound_def

text \<open>
  C5. \<^verbatim>\<open>calculateCrc8\<close> computes the specified algorithm: seed 0, each byte XORed into the
  running value and followed by eight rounds of shift-and-conditional-XOR with 0x07 on
  8 bits, over the first \<open>BufLen\<close> bytes of the buffer. It is a function of the bytes it
  is given and of nothing else (it reads no static variable), so two runs on the same byte
  sequence give the same value.
\<close>

theorem C5_calculateCrc8_refines_spec:
  "unat BufLen \<le> length Buf \<Longrightarrow>
   calculateCrc8 Buf BufLen = crc8_spec (take (unat BufLen) Buf)"
  by (simp add: calculateCrc8_def crc8_spec_def crc8Loop_spec)

text \<open>The check value of CRC-8 with polynomial 0x07: the ASCII digits 1 to 9 give 0xF4.\<close>

theorem C5_calculateCrc8_check_value:
  "unat (9 :: u8) \<le> length [0x31, 0x32, 0x33, 0x34, 0x35, 0x36, 0x37, 0x38, 0x39 :: u8] \<and>
   calculateCrc8 [0x31, 0x32, 0x33, 0x34, 0x35, 0x36, 0x37, 0x38, 0x39] 9 = 0xF4 \<and>
   crc8_spec (take (unat (9 :: u8)) [0x31, 0x32, 0x33, 0x34, 0x35, 0x36, 0x37, 0x38, 0x39]) = 0xF4"
proof -
  have v: "calculateCrc8 [0x31, 0x32, 0x33, 0x34, 0x35, 0x36, 0x37, 0x38, 0x39] 9 = 0xF4"
    by (simp add: crc8_eval)
  show ?thesis
    using C5_calculateCrc8_refines_spec
            [of 9 "[0x31, 0x32, 0x33, 0x34, 0x35, 0x36, 0x37, 0x38, 0x39]"] v
    by simp
qed

section \<open>The RPM converter\<close>

lemma sint_u32_eq_self:
  "- (2 ^ 31) \<le> k \<Longrightarrow> k < 2 ^ 31 \<Longrightarrow> sint (word_of_int k :: u32) = k"
  by (simp add: signed_of_int signed_take_bit_int_eq_self)

lemma sint_mul_no_overflow:
  "- (2 ^ 31) \<le> sint a * sint b \<Longrightarrow> sint a * sint b < 2 ^ 31 \<Longrightarrow>
   sint (a * b :: u32) = sint a * sint b"
  by (simp add: sint_word_ariths signed_take_bit_int_eq_self)

lemma uint_u8_less: "uint (b :: u8) < 256"
  using uint_lt2p [of b] by simp

lemma sint_ucast_u8: "sint (ucast (b :: u8) :: u32) = uint b"
proof -
  have "(ucast b :: u32) = word_of_int (uint b)"
    by simp
  moreover have "- (2 ^ 31) \<le> (0::int)" and "0 \<le> uint b"
    by simp_all
  then have "- (2 ^ 31) \<le> uint b"
    by (rule order_trans)
  moreover have "uint b < 2 ^ 31"
    using uint_u8_less [of b] by simp
  ultimately show ?thesis
    by (simp only: sint_u32_eq_self)
qed

lemma int_div_le_self: "0 \<le> (k::int) \<Longrightarrow> 0 < d \<Longrightarrow> k div d \<le> k"
  using zdiv_mono2 [of k 1 d] by simp

lemma sdiv_pos_bounds:
  assumes "- (2 ^ 31) \<le> (k::int)" and "k < 2 ^ 31" and "0 < d"
  shows "- (2 ^ 31) \<le> k sdiv d \<and> k sdiv d < 2 ^ 31"
proof (cases "0 \<le> k")
  case True
  with assms have "k sdiv d = k div d"
    by (simp add: signed_divide_int_def sgn_if)
  moreover have "k div d \<le> k" "0 \<le> k div d"
    using True assms(3) by (simp_all add: int_div_le_self pos_imp_zdiv_nonneg_iff)
  ultimately show ?thesis
    using assms by simp
next
  case False
  with assms have e: "k sdiv d = - ((- k) div d)"
    by (simp add: signed_divide_int_def sgn_if)
  have "(- k) div d \<le> - k" "0 \<le> (- k) div d"
    using False assms(3) by (simp_all add: int_div_le_self pos_imp_zdiv_nonneg_iff)
  then show ?thesis
    using assms e by simp
qed

lemma int_div_pos:
  assumes "0 < sint d"
  shows "\<exists>r. int_div a d = Inr r \<and> sint r = sint a sdiv sint d"
proof -
  from assms have nz: "d \<noteq> 0" and n1: "sint d \<noteq> - 1"
    by auto
  have "- (2 ^ 31) \<le> sint a" "sint a < 2 ^ 31"
    using sint_ge [of a] sint_lt [of a] by simp_all
  with assms have "- (2 ^ 31) \<le> sint a sdiv sint d \<and> sint a sdiv sint d < 2 ^ 31"
    by (intro sdiv_pos_bounds)
  then have "sint (word_of_int (sint a sdiv sint d) :: u32) = sint a sdiv sint d"
    by (simp add: sint_u32_eq_self)
  with nz n1 show ?thesis
    by (simp add: int_div_def)
qed

lemma half_poles:
  assumes "2 \<le> poles"
  shows "\<exists>d. int_div (ucast (poles :: u8)) 2 = Inr d \<and> sint d = uint poles sdiv 2 \<and> 0 < sint d"
proof -
  have "0 < sint (2 :: u32)"
    by simp
  then obtain d where d: "int_div (ucast poles) 2 = Inr d"
      "sint d = sint (ucast poles :: u32) sdiv sint (2 :: u32)"
    using int_div_pos [of 2 "ucast poles"] by blast
  from assms have "2 \<le> uint poles"
    by (simp add: word_le_def)
  then have "0 < uint poles sdiv 2"
    by (simp add: signed_divide_int_def sgn_if pos_imp_zdiv_pos_iff)
  with d show ?thesis
    by (simp add: sint_ucast_u8)
qed

lemma calcEscRpm_formula_aux:
  assumes "2 \<le> motorPoleCount env"
    and "- (2 ^ 31) \<le> sint erpm * 100" and "sint erpm * 100 < 2 ^ 31"
  shows "\<exists>r. calcEscRpm env erpm = Inr r \<and>
             sint r = (sint erpm * 100) sdiv (uint (motorPoleCount env) sdiv 2)"
proof -
  from assms(2,3) have m: "int_mul erpm 100 = Inr (erpm * 100)"
    by (simp add: int_mul_def)
  from assms(2,3) have ms: "sint (erpm * 100) = sint erpm * 100"
    using sint_mul_no_overflow [of erpm 100] by simp
  from half_poles [OF assms(1)] obtain d where
    d: "int_div (ucast (motorPoleCount env)) 2 = Inr d"
      "sint d = uint (motorPoleCount env) sdiv 2" "0 < sint d"
    by blast
  from int_div_pos [OF d(3), of "erpm * 100"] obtain r where
    r: "int_div (erpm * 100) d = Inr r" "sint r = sint (erpm * 100) sdiv sint d"
    by blast
  show ?thesis
    by (simp add: calcEscRpm_def m d r ms)
qed


text \<open>
  C8. For a pole count of at least 2 and an electrical rpm whose hundredfold is an
  \<^verbatim>\<open>int\<close>, \<^verbatim>\<open>calcEscRpm\<close> returns \<open>erpm * 100 / (poles / 2)\<close>, both quotients truncated
  towards zero (\<open>sdiv\<close>). Outside these bounds the C expression divides by zero or
  overflows. Every value of the 16-bit rpm field is inside them (lemma
  \<open>calcEscRpm_of_rpm_field\<close>).
\<close>

theorem C8_calcEscRpm_formula:
  assumes "2 \<le> motorPoleCount env"
    and "- (2 ^ 31) \<le> sint erpm * 100" and "sint erpm * 100 < 2 ^ 31"
  shows "\<exists>r. calcEscRpm env erpm = Inr r \<and>
             sint r = (sint erpm * 100) sdiv (uint (motorPoleCount env) sdiv 2)"
  using assms by (rule calcEscRpm_formula_aux)

theorem C8_calcEscRpm_formula_witness:
  "2 \<le> motorPoleCount kissEnv \<and>
   - (2 ^ 31) \<le> sint (300 :: u32) * 100 \<and> sint (300 :: u32) * 100 < 2 ^ 31 \<and>
   (\<exists>r. calcEscRpm kissEnv 300 = Inr r \<and> sint r = 4285) \<and>
   - (2 ^ 31) \<le> sint (- 3 :: u32) * 100 \<and> sint (- 3 :: u32) * 100 < 2 ^ 31 \<and>
   (\<exists>r. calcEscRpm kissEnv (- 3) = Inr r \<and> sint r = - 42)"
proof -
  have h1: "2 \<le> motorPoleCount kissEnv"
    by (simp add: kissEnv_def)
  have h2: "- (2 ^ 31) \<le> sint (300 :: u32) * 100" and h3: "sint (300 :: u32) * 100 < 2 ^ 31"
    by simp_all
  have h4: "- (2 ^ 31) \<le> sint (- 3 :: u32) * 100" and h5: "sint (- 3 :: u32) * 100 < 2 ^ 31"
    by simp_all
  have p: "uint (motorPoleCount kissEnv) = 14"
    by (simp add: kissEnv_def)
  show ?thesis
    using h1 h2 h3 h4 h5 C8_calcEscRpm_formula [OF h1 h2 h3] C8_calcEscRpm_formula [OF h1 h4 h5]
    by (simp add: p)
qed

lemma calcEscRpm_of_rpm_field:
  assumes "2 \<le> motorPoleCount env"
  shows "\<exists>r. calcEscRpm env (scast (x :: u16)) = Inr r \<and>
             sint r = (sint x * 100) sdiv (uint (motorPoleCount env) sdiv 2)"
proof -
  have e: "sint (scast x :: u32) = sint x"
    by (simp add: sint_up_scast is_up)
  have "- (2 ^ 15) \<le> sint x" "sint x < 2 ^ 15"
    using sint_ge [of x] sint_lt [of x] by simp_all
  then have "- (2 ^ 31) \<le> sint (scast x :: u32) * 100" "sint (scast x :: u32) * 100 < 2 ^ 31"
    unfolding e by simp_all
  from calcEscRpm_formula_aux [OF assms this] show ?thesis
    by (simp add: e)
qed

text \<open>
  The \<^verbatim>\<open>DEBUG_SET\<close> lines of the decoders change nothing, and they are defined unless the
  debug mode is \<^verbatim>\<open>DEBUG_ESC_SENSOR_RPM\<close>, the polled motor is one of the first four and the
  pole count is below 2: then \<^verbatim>\<open>calcEscRpm\<close> divides by zero.
\<close>

lemma debugSetRpm_Inr: "debugSetRpm env s = Inr s' \<Longrightarrow> s' = s"
  by (auto simp: debugSetRpm_def split: if_splits sum.splits)

lemma debugSetRpm_ok:
  assumes "debugMode env = DEBUG_ESC_SENSOR_RPM \<and> escSensorMotor s < 4 \<longrightarrow> 2 \<le> motorPoleCount env"
  shows "debugSetRpm env s = Inr s"
proof (cases "escSensorMotor s < 4 \<and> debugMode env = DEBUG_ESC_SENSOR_RPM")
  case False
  then show ?thesis
    by (auto simp: debugSetRpm_def)
next
  case True
  with assms have "2 \<le> motorPoleCount env"
    by simp
  from calcEscRpm_of_rpm_field [OF this] obtain r where
    r: "calcEscRpm env (scast (rpm (escSensorData s ! unat (escSensorMotor s)))) = Inr r"
    by blast
  have "0 < sint (10 :: u32)"
    by simp
  from int_div_pos [OF this, of r] obtain v where v: "int_div r 10 = Inr v"
    by blast
  from True show ?thesis
    by (simp add: debugSetRpm_def r v)
qed

lemma debugSetRpm_division_by_zero:
  assumes "debugMode env = DEBUG_ESC_SENSOR_RPM" and "escSensorMotor s < 4"
    and "motorPoleCount env < 2"
  shows "debugSetRpm env s = Inl DivisionByZero"
proof -
  let ?x = "rpm (escSensorData s ! unat (escSensorMotor s))"
  have e: "sint (scast ?x :: u32) = sint ?x"
    by (simp add: sint_up_scast is_up)
  have "- (2 ^ 15) \<le> sint ?x" "sint ?x < 2 ^ 15"
    using sint_ge [of ?x] sint_lt [of ?x] by simp_all
  then have m: "int_mul (scast ?x) 100 = Inr (scast ?x * 100)"
    by (simp add: int_mul_def e)
  from assms(3) have "uint (motorPoleCount env) < 2"
    by (simp add: word_less_def)
  moreover have "0 \<le> uint (motorPoleCount env)"
    by simp
  ultimately have "uint (motorPoleCount env) = 0 \<or> uint (motorPoleCount env) = 1"
    by linarith
  then have "sint (ucast (motorPoleCount env) :: u32) sdiv sint (2 :: u32) = 0"
    by (auto simp: sint_ucast_u8 signed_divide_int_def)
  then have d: "int_div (ucast (motorPoleCount env)) 2 = Inr 0"
    by (simp add: int_div_def)
  have z: "int_div p 0 = Inl DivisionByZero" for p
    by (simp add: int_div_def)
  from assms(1,2) show ?thesis
    by (simp add: debugSetRpm_def calcEscRpm_def m d z)
qed


section \<open>The KISS decoder\<close>

lemma unat_u8_less: "unat (b :: u8) < 256"
  using unsigned_less [of b] by simp

lemma unat_ucast_u8_u32: "unat (ucast (b :: u8) :: u32) = unat b"
proof -
  have "unat b < 2 ^ 32"
    using unat_u8_less [of b] by simp
  then show ?thesis
    by (simp add: unsigned_ucast_eq take_bit_nat_eq_self)
qed

lemma unat_ucast_u8_u16: "unat (ucast (b :: u8) :: u16) = unat b"
proof -
  have "unat b < 2 ^ 16"
    using unat_u8_less [of b] by simp
  then show ?thesis
    by (simp add: unsigned_ucast_eq take_bit_nat_eq_self)
qed

lemma ucast_u8_u16_eq: "((ucast (a :: u8) :: u16) = ucast (b :: u8)) = (a = b)"
proof
  assume "(ucast a :: u16) = ucast b"
  then have "unat (ucast a :: u16) = unat (ucast b :: u16)"
    by simp
  then have "unat a = unat b"
    by (simp only: unat_ucast_u8_u16)
  then show "a = b"
    by (rule unsigned_word_eqI)
qed simp

lemma shl8_or_add: "shl8_or hi lo = 256 * ucast hi + ucast lo"
proof -
  have "push_bit 8 (ucast hi :: u32) OR ucast lo = push_bit 8 (ucast hi) + ucast lo"
    apply (rule disjunctive_add [symmetric])
    apply (simp only: bit_simps)
    apply (auto dest: bit_imp_le_length)
    done
  then show ?thesis
    by (simp add: shl8_or_def push_bit_eq_mult)
qed

lemma unat_shl8_or: "unat (shl8_or hi lo) = 256 * unat hi + unat lo"
proof -
  have "256 * unat hi + unat lo < 2 ^ 32"
    using unat_u8_less [of hi] unat_u8_less [of lo] by simp
  then show ?thesis
    by (simp add: shl8_or_add unat_word_ariths unat_ucast_u8_u32)
qed

lemma unat_ucast_shl8_or: "unat (ucast (shl8_or hi lo) :: u16) = 256 * unat hi + unat lo"
proof -
  have "256 * unat hi + unat lo < 2 ^ 16"
    using unat_u8_less [of hi] unat_u8_less [of lo] by simp
  then show ?thesis
    by (simp add: unsigned_ucast_eq unat_shl8_or take_bit_nat_eq_self)
qed

lemma uint_shl8_or: "uint (shl8_or hi lo) = 256 * uint hi + uint lo"
proof -
  have "uint (shl8_or hi lo) = int (unat (shl8_or hi lo))"
    by (rule uint_nat)
  also have "\<dots> = int (256 * unat hi + unat lo)"
    by (simp only: unat_shl8_or)
  also have "\<dots> = 256 * uint hi + uint lo"
    by simp
  finally show ?thesis .
qed

lemma uint_ucast_shl8_or: "uint (ucast (shl8_or hi lo) :: u16) = 256 * uint hi + uint lo"
proof -
  have "uint (ucast (shl8_or hi lo) :: u16) = int (unat (ucast (shl8_or hi lo) :: u16))"
    by (rule uint_nat)
  also have "\<dots> = int (256 * unat hi + unat lo)"
    by (simp only: unat_ucast_shl8_or)
  also have "\<dots> = 256 * uint hi + uint lo"
    by simp
  finally show ?thesis .
qed

text \<open>
  A field read as the signed number the C type gives it: the unsigned value of the bit
  pattern below the sign bit, that value less \<open>2 ^ width\<close> from the sign bit on.
\<close>

lemma signed_take_bit_cases:
  assumes "0 \<le> (k::int)" and "k < 2 * 2 ^ n"
  shows "signed_take_bit n k = (if k < 2 ^ n then k else k - 2 * 2 ^ n)"
proof (cases "k < 2 ^ n")
  case True
  with assms(1) show ?thesis
    by (simp add: signed_take_bit_int_eq_self)
next
  case False
  let ?m = "(2::int) * 2 ^ n"
  have "(k + 2 ^ n) mod ?m = (k + 2 ^ n - ?m) mod ?m"
    by (simp only: minus_mod_self2)
  also have "\<dots> = k + 2 ^ n - ?m"
    using False assms(2) by (intro mod_pos_pos_trivial) simp_all
  finally have "(k + 2 ^ n) mod ?m - 2 ^ n = k - ?m"
    by simp
  with False show ?thesis
    by (simp add: signed_take_bit_eq_take_bit_shift take_bit_eq_mod)
qed

lemma sint_u8_cases: "sint (b :: u8) = (if uint b < 128 then uint b else uint b - 256)"
  using signed_take_bit_cases [of "uint b" 7] uint_lt2p [of b]
  by (simp add: sint_uint)

lemma sint_u16_cases: "sint (w :: u16) = (if uint w < 32768 then uint w else uint w - 65536)"
  using signed_take_bit_cases [of "uint w" 15] uint_lt2p [of w]
  by (simp add: sint_uint)

lemma sint_shl8_or: "sint (shl8_or hi lo) = 256 * uint hi + uint lo"
proof -
  have "uint (shl8_or hi lo) < 2 ^ 31"
    using uint_u8_less [of hi] uint_u8_less [of lo] by (simp add: uint_shl8_or)
  then show ?thesis
    using signed_take_bit_cases [of "uint (shl8_or hi lo)" 31]
    by (simp add: sint_uint uint_shl8_or)
qed

text \<open>The checksum comparison of decodeEscFrame, in terms of the specified CRC.\<close>

lemma frame_crc_spec:
  "length b = 10 \<Longrightarrow> calculateCrc8 b 9 = crc8_spec (take 9 b)"
  by (simp add: calculateCrc8_def crc8Loop_spec crc8_spec_def)

lemma decodeEscFrame_cases:
  "length (telemetryBuffer s) = 10 \<Longrightarrow> isFrameComplete s \<Longrightarrow>
   decodeEscFrame env s =
     (if telemetryBuffer s ! 9 = crc8_spec (take 9 (telemetryBuffer s)) then
        (case debugSetRpm env (storeEscFrame s) of
           Inl e \<Rightarrow> Inl e
         | Inr s1 \<Rightarrow> Inr (ESC_SENSOR_FRAME_COMPLETE, s1))
      else Inr (ESC_SENSOR_FRAME_FAILED, s))"
  by (auto simp: decodeEscFrame_def Let_def frame_crc_spec ucast_u8_u16_eq TELEMETRY_FRAME_SIZE_def)

text \<open>What the decoder returns, whenever it returns.\<close>

lemma decodeEscFrame_Inr:
  assumes "decodeEscFrame env s = Inr (r, s1)"
  shows "(r = ESC_SENSOR_FRAME_COMPLETE \<and> s1 = storeEscFrame s) \<or>
         (r \<noteq> ESC_SENSOR_FRAME_COMPLETE \<and> s1 = s)"
  using assms
  by (auto simp: decodeEscFrame_def Let_def split: if_splits sum.splits dest: debugSetRpm_Inr)

lemma decodeEscFrame_valid_aux:
  assumes "isFrameComplete s"
    and "length (telemetryBuffer s) = 10"
    and "telemetryBuffer s ! 9 = crc8_spec (take 9 (telemetryBuffer s))"
    and "debugMode env = DEBUG_ESC_SENSOR_RPM \<and> escSensorMotor s < 4 \<longrightarrow> 2 \<le> motorPoleCount env"
  shows "decodeEscFrame env s = Inr (ESC_SENSOR_FRAME_COMPLETE, storeEscFrame s)"
proof -
  have "escSensorMotor (storeEscFrame s) = escSensorMotor s"
    by (simp add: storeEscFrame_def)
  with assms(4) have "debugSetRpm env (storeEscFrame s) = Inr (storeEscFrame s)"
    by (intro debugSetRpm_ok) simp
  with assms(1-3) show ?thesis
    by (simp add: decodeEscFrame_cases)
qed

lemma storeEscFrame_fields:
  assumes "unat (escSensorMotor s) < length (escSensorData s)"
  shows "escSensorMotor (storeEscFrame s) = escSensorMotor s \<and>
         (let d = escSensorData (storeEscFrame s) ! unat (escSensorMotor s);
              b = telemetryBuffer s;
              t = uint (b ! 0);
              v = 256 * uint (b ! 1) + uint (b ! 2);
              r = 256 * uint (b ! 7) + uint (b ! 8)
          in dataAge d = 0 \<and>
             sint (temperature d) = (if t < 128 then t else t - 256) \<and>
             sint (voltage d) = (if v < 32768 then v else v - 65536) \<and>
             sint (current d) = 256 * uint (b ! 3) + uint (b ! 4) \<and>
             sint (consumption d) = 256 * uint (b ! 5) + uint (b ! 6) \<and>
             sint (rpm d) = (if r < 32768 then r else r - 65536))"
  using assms
  by (simp add: storeEscFrame_def Let_def sint_u8_cases sint_u16_cases sint_shl8_or
        uint_ucast_shl8_or)

text \<open>
  C1, as amended. A complete 10-byte frame whose last byte is the CRC-8 of the first nine
  is decoded: \<^verbatim>\<open>decodeEscFrame\<close> returns \<^verbatim>\<open>ESC_SENSOR_FRAME_COMPLETE\<close>, and the reading of the
  selected motor has staleness 0 and the bytes of the frame in its fields, each read as
  the C type of the field reads it. Current and consumption (\<^verbatim>\<open>int32_t\<close>) are the
  big-endian values of bytes 3-4 and 5-6. The temperature (\<^verbatim>\<open>int8_t\<close>) is byte 0 only below
  0x80, and byte 0 less 256 from there on; voltage and rpm (\<^verbatim>\<open>int16_t\<close>) are the big-endian
  values of bytes 1-2 and 7-8 only below 0x8000, and these values less 65536 from there
  on. The call is defined when the selected motor is inside the array and, in debug mode
  \<^verbatim>\<open>DEBUG_ESC_SENSOR_RPM\<close> with one of the first four motors selected, the pole count is at
  least 2.
\<close>

theorem C1_decodeEscFrame_valid_frame:
  assumes "isFrameComplete s"
    and "length (telemetryBuffer s) = 10"
    and "telemetryBuffer s ! 9 = crc8_spec (take 9 (telemetryBuffer s))"
    and "unat (escSensorMotor s) < length (escSensorData s)"
    and "debugMode env = DEBUG_ESC_SENSOR_RPM \<and> escSensorMotor s < 4 \<longrightarrow> 2 \<le> motorPoleCount env"
  shows "\<exists>s'. decodeEscFrame env s = Inr (ESC_SENSOR_FRAME_COMPLETE, s') \<and>
           escSensorMotor s' = escSensorMotor s \<and>
           (let d = escSensorData s' ! unat (escSensorMotor s);
                b = telemetryBuffer s;
                t = uint (b ! 0);
                v = 256 * uint (b ! 1) + uint (b ! 2);
                r = 256 * uint (b ! 7) + uint (b ! 8)
            in dataAge d = 0 \<and>
               sint (temperature d) = (if t < 128 then t else t - 256) \<and>
               sint (voltage d) = (if v < 32768 then v else v - 65536) \<and>
               sint (current d) = 256 * uint (b ! 3) + uint (b ! 4) \<and>
               sint (consumption d) = 256 * uint (b ! 5) + uint (b ! 6) \<and>
               sint (rpm d) = (if r < 32768 then r else r - 65536))"
  using decodeEscFrame_valid_aux [OF assms(1-3,5)] storeEscFrame_fields [OF assms(4)]
  by blast

lemma kissState_crc: "crc8_spec (take 9 (telemetryBuffer kissState)) = 0xE2"
proof -
  have "calculateCrc8 [0x1E, 0x05, 0xDC, 0x00, 0xFA, 0x00, 0x64, 0x01, 0x2C, 0xE2] 9 = 0xE2"
    by (simp add: crc8_eval)
  moreover have "calculateCrc8 (telemetryBuffer kissState) 9 =
     crc8_spec (take 9 (telemetryBuffer kissState))"
    by (rule frame_crc_spec) (simp add: kissState_def)
  ultimately show ?thesis
    by (simp add: kissState_def)
qed

text \<open>
  The frame of \<open>kissState\<close> in debug mode \<^verbatim>\<open>DEBUG_ESC_SENSOR_RPM\<close>, with 14 poles: temperature
  30, voltage 1500, current 250, consumption 100, rpm 300.
\<close>

theorem C1_decodeEscFrame_valid_frame_witness:
  "isFrameComplete kissState \<and>
   length (telemetryBuffer kissState) = 10 \<and>
   telemetryBuffer kissState ! 9 = crc8_spec (take 9 (telemetryBuffer kissState)) \<and>
   unat (escSensorMotor kissState) < length (escSensorData kissState) \<and>
   debugMode (kissEnv\<lparr>debugMode := DEBUG_ESC_SENSOR_RPM\<rparr>) = DEBUG_ESC_SENSOR_RPM \<and>
   escSensorMotor kissState < 4 \<and>
   2 \<le> motorPoleCount (kissEnv\<lparr>debugMode := DEBUG_ESC_SENSOR_RPM\<rparr>) \<and>
   (\<exists>s'. decodeEscFrame (kissEnv\<lparr>debugMode := DEBUG_ESC_SENSOR_RPM\<rparr>) kissState =
            Inr (ESC_SENSOR_FRAME_COMPLETE, s') \<and>
          dataAge (escSensorData s' ! 1) = 0 \<and>
          sint (temperature (escSensorData s' ! 1)) = 30 \<and>
          sint (voltage (escSensorData s' ! 1)) = 1500 \<and>
          sint (current (escSensorData s' ! 1)) = 250 \<and>
          sint (consumption (escSensorData s' ! 1)) = 100 \<and>
          sint (rpm (escSensorData s' ! 1)) = 300)"
proof -
  let ?env = "kissEnv\<lparr>debugMode := DEBUG_ESC_SENSOR_RPM\<rparr>"
  have h1: "isFrameComplete kissState"
    by (simp add: isFrameComplete_def kissState_def)
  have h2: "length (telemetryBuffer kissState) = 10"
    by (simp add: kissState_def)
  have h3: "telemetryBuffer kissState ! 9 = crc8_spec (take 9 (telemetryBuffer kissState))"
    unfolding kissState_crc by (simp add: kissState_def)
  have h4: "unat (escSensorMotor kissState) < length (escSensorData kissState)"
    by (simp add: kissState_def)
  have g: "debugMode ?env = DEBUG_ESC_SENSOR_RPM" "escSensorMotor kissState < 4"
    "2 \<le> motorPoleCount ?env"
    by (simp_all add: kissEnv_def kissState_def)
  then have h5: "debugMode ?env = DEBUG_ESC_SENSOR_RPM \<and> escSensorMotor kissState < 4 \<longrightarrow>
      2 \<le> motorPoleCount ?env"
    by simp
  have m: "unat (escSensorMotor kissState) = 1" and b: "telemetryBuffer kissState =
      [0x1E, 0x05, 0xDC, 0x00, 0xFA, 0x00, 0x64, 0x01, 0x2C, 0xE2]"
    by (simp_all add: kissState_def)
  from C1_decodeEscFrame_valid_frame [OF h1 h2 h3 h4 h5] obtain s' where
    "decodeEscFrame ?env kissState = Inr (ESC_SENSOR_FRAME_COMPLETE, s') \<and>
     dataAge (escSensorData s' ! 1) = 0 \<and>
     sint (temperature (escSensorData s' ! 1)) = 30 \<and>
     sint (voltage (escSensorData s' ! 1)) = 1500 \<and>
     sint (current (escSensorData s' ! 1)) = 250 \<and>
     sint (consumption (escSensorData s' ! 1)) = 100 \<and>
     sint (rpm (escSensorData s' ! 1)) = 300"
    by (auto simp: Let_def m b)
  with h1 h2 h3 h4 g show ?thesis
    by blast
qed

text \<open>
  The frame of nine bytes 0xFF with its checksum 0xD8 meets the conditions of the claim,
  and the decoder stores it. Byte 0 is 255 and the temperature is -1; bytes 1-2 and 7-8
  are 65535 and voltage and rpm are -1.
\<close>

lemma kissSignedState_crc: "crc8_spec (take 9 (telemetryBuffer kissSignedState)) = 0xD8"
proof -
  have "calculateCrc8 [0xFF, 0xFF, 0xFF, 0xFF, 0xFF, 0xFF, 0xFF, 0xFF, 0xFF, 0xD8] 9 = 0xD8"
    by (simp add: crc8_eval)
  moreover have "calculateCrc8 (telemetryBuffer kissSignedState) 9 =
     crc8_spec (take 9 (telemetryBuffer kissSignedState))"
    by (rule frame_crc_spec) (simp add: kissSignedState_def)
  ultimately show ?thesis
    by (simp add: kissSignedState_def)
qed

theorem C1_signed_fields_counterexample:
  "isFrameComplete kissSignedState \<and>
   length (telemetryBuffer kissSignedState) = 10 \<and>
   telemetryBuffer kissSignedState ! 9 = crc8_spec (take 9 (telemetryBuffer kissSignedState)) \<and>
   unat (escSensorMotor kissSignedState) < length (escSensorData kissSignedState) \<and>
   uint (telemetryBuffer kissSignedState ! 0) = 255 \<and>
   256 * uint (telemetryBuffer kissSignedState ! 1) + uint (telemetryBuffer kissSignedState ! 2)
     = 65535 \<and>
   256 * uint (telemetryBuffer kissSignedState ! 7) + uint (telemetryBuffer kissSignedState ! 8)
     = 65535 \<and>
   (\<exists>s'. decodeEscFrame kissEnv kissSignedState = Inr (ESC_SENSOR_FRAME_COMPLETE, s') \<and>
          sint (temperature (escSensorData s' ! 1)) = - 1 \<and>
          sint (voltage (escSensorData s' ! 1)) = - 1 \<and>
          sint (rpm (escSensorData s' ! 1)) = - 1)"
proof -
  have h1: "isFrameComplete kissSignedState"
    by (simp add: isFrameComplete_def kissSignedState_def kissState_def)
  have h2: "length (telemetryBuffer kissSignedState) = 10"
    by (simp add: kissSignedState_def)
  have h3: "telemetryBuffer kissSignedState ! 9 =
      crc8_spec (take 9 (telemetryBuffer kissSignedState))"
    unfolding kissSignedState_crc by (simp add: kissSignedState_def)
  have h4: "unat (escSensorMotor kissSignedState) < length (escSensorData kissSignedState)"
    by (simp add: kissSignedState_def kissState_def)
  have h5: "debugMode kissEnv = DEBUG_ESC_SENSOR_RPM \<and> escSensorMotor kissSignedState < 4 \<longrightarrow>
      2 \<le> motorPoleCount kissEnv"
    by (simp add: kissEnv_def)
  have m: "unat (escSensorMotor kissSignedState) = 1" and b: "telemetryBuffer kissSignedState =
      [0xFF, 0xFF, 0xFF, 0xFF, 0xFF, 0xFF, 0xFF, 0xFF, 0xFF, 0xD8]"
    by (simp_all add: kissSignedState_def kissState_def)
  have d: "decodeEscFrame kissEnv kissSignedState =
      Inr (ESC_SENSOR_FRAME_COMPLETE, storeEscFrame kissSignedState)"
    using h1 h2 h3 h5 by (rule decodeEscFrame_valid_aux)
  have f: "sint (temperature (escSensorData (storeEscFrame kissSignedState) ! 1)) = - 1 \<and>
      sint (voltage (escSensorData (storeEscFrame kissSignedState) ! 1)) = - 1 \<and>
      sint (rpm (escSensorData (storeEscFrame kissSignedState) ! 1)) = - 1"
    using storeEscFrame_fields [OF h4] by (simp add: Let_def m b)
  have v: "uint (telemetryBuffer kissSignedState ! 0) = 255 \<and>
      256 * uint (telemetryBuffer kissSignedState ! 1) + uint (telemetryBuffer kissSignedState ! 2)
        = 65535 \<and>
      256 * uint (telemetryBuffer kissSignedState ! 7) + uint (telemetryBuffer kissSignedState ! 8)
        = 65535"
    by (simp add: b)
  from h1 h2 h3 h4 v d f show ?thesis
    by blast
qed

text \<open>
  In debug mode \<^verbatim>\<open>DEBUG_ESC_SENSOR_RPM\<close> with a pole count below 2, the decoder divides by
  zero on a valid frame for one of the first four motors, after its stores.
\<close>

lemma decodeEscFrame_division_by_zero:
  assumes "isFrameComplete s"
    and "length (telemetryBuffer s) = 10"
    and "telemetryBuffer s ! 9 = crc8_spec (take 9 (telemetryBuffer s))"
    and "debugMode env = DEBUG_ESC_SENSOR_RPM" and "escSensorMotor s < 4"
    and "motorPoleCount env < 2"
  shows "decodeEscFrame env s = Inl DivisionByZero"
proof -
  have "escSensorMotor (storeEscFrame s) = escSensorMotor s"
    by (simp add: storeEscFrame_def)
  with assms(4-6) have "debugSetRpm env (storeEscFrame s) = Inl DivisionByZero"
    by (intro debugSetRpm_division_by_zero) simp_all
  with assms(1-3) show ?thesis
    by (simp add: decodeEscFrame_cases)
qed

lemma increaseDataAge_data:
  "escSensorData (increaseDataAge env s) =
     (escSensorData s)[unat (escSensorMotor s) :=
        (escSensorData s ! unat (escSensorMotor s))
          \<lparr>dataAge :=
             (if dataAge (escSensorData s ! unat (escSensorMotor s)) < ESC_DATA_INVALID env
              then dataAge (escSensorData s ! unat (escSensorMotor s)) + 1
              else dataAge (escSensorData s ! unat (escSensorMotor s)))\<rparr>]"
  by (simp add: increaseDataAge_def)

text \<open>The step of the state machine on a complete frame with a wrong checksum.\<close>

lemma kiss_checksum_failure_step:
  assumes "escSensorTriggerState s = ESC_SENSOR_TRIGGER_PENDING"
    and "currentTimeMs < escTriggerTimestamp s + ESC_REQUEST_TIMEOUT"
    and "isFrameComplete s"
    and "length (telemetryBuffer s) = 10"
    and "telemetryBuffer s ! 9 \<noteq> crc8_spec (take 9 (telemetryBuffer s))"
  shows "decodeEscFrame env s = Inr (ESC_SENSOR_FRAME_FAILED, s)"
    and "escSensorProcessKISS env currentTimeMs s =
          Inr (bumpCrcErrors env
                 ((selectNextMotor env (increaseDataAge env s))
                    \<lparr>escSensorTriggerState := ESC_SENSOR_TRIGGER_READY\<rparr>))"
proof -
  from assms show dec: "decodeEscFrame env s = Inr (ESC_SENSOR_FRAME_FAILED, s)"
    by (simp add: decodeEscFrame_cases)
  show "escSensorProcessKISS env currentTimeMs s =
          Inr (bumpCrcErrors env
                 ((selectNextMotor env (increaseDataAge env s))
                    \<lparr>escSensorTriggerState := ESC_SENSOR_TRIGGER_READY\<rparr>))"
    using assms(1,2) by (simp add: escSensorProcessKISS_def kissTriggerPending_def dec)
qed




section \<open>The Hobbywing stream parser\<close>

lemma u8_succ_le_18: "(x::u8) \<le> 18 \<Longrightarrow> x \<noteq> 18 \<Longrightarrow> x + 1 \<le> 18"
  by unat_arith

lemma hwInv_step: "hwInv s \<Longrightarrow> hwInv (snd (processHWv4TelemetryStream b s))"
  by (auto simp: hwInv_def processHWv4TelemetryStream_def u8_succ_le_18)

lemma hwInv_feed: "hwInv s \<Longrightarrow> hwInv (snd (hwFeed bs s))"
proof (induction bs arbitrary: s)
  case Nil
  then show ?case by simp
next
  case (Cons b bs)
  from Cons.prems have "hwInv (snd (processHWv4TelemetryStream b s))"
    by (rule hwInv_step)
  then have "hwInv (snd (hwFeed bs (snd (processHWv4TelemetryStream b s))))"
    by (rule Cons.IH)
  then show ?case
    by (simp add: split_beta)
qed

lemma hwIdle_inv: "hwIdle s \<Longrightarrow> hwInv s"
  by (simp add: hwIdle_def hwInv_def)

text \<open>Eleven bytes are discarded after a collision, whatever they are.\<close>

lemma hw_skip_step:
  "0 < skipPackets s \<Longrightarrow>
   processHWv4TelemetryStream b s = (False, s\<lparr>skipPackets := skipPackets s - 1\<rparr>)"
  by (simp add: processHWv4TelemetryStream_def)

lemma hwFeed_append:
  "hwFeed (xs @ ys) s =
     (fst (hwFeed xs s) @ fst (hwFeed ys (snd (hwFeed xs s))), snd (hwFeed ys (snd (hwFeed xs s))))"
  by (induction xs arbitrary: s) (simp_all add: split_beta)

lemma u8_pred_unat: "0 < (x::u8) \<Longrightarrow> unat (x - 1) = unat x - 1"
  by unat_arith

lemma hw_skip_feed:
  "length bs \<le> unat (skipPackets s) \<Longrightarrow>
   hwFeed bs s = (replicate (length bs) False, s\<lparr>skipPackets := skipPackets s - of_nat (length bs)\<rparr>)"
proof (induction bs arbitrary: s)
  case Nil
  then show ?case by simp
next
  case (Cons b bs)
  from Cons.prems have pos: "0 < skipPackets s"
    by (auto simp: word_less_nat_alt)
  let ?s1 = "s\<lparr>skipPackets := skipPackets s - 1\<rparr>"
  from Cons.prems pos have "length bs \<le> unat (skipPackets ?s1)"
    by (simp add: u8_pred_unat)
  then have "hwFeed bs ?s1 =
      (replicate (length bs) False, ?s1\<lparr>skipPackets := skipPackets ?s1 - of_nat (length bs)\<rparr>)"
    by (rule Cons.IH)
  with pos show ?case
    by (simp add: hw_skip_step algebra_simps)
qed

lemma u8_succ_unat: "unat (x::u8) < 18 \<Longrightarrow> unat (x + 1) = unat x + 1"
  by (simp add: unat_word_ariths)

lemma hw_step_short:
  "unat (bytesRead s) < 18 \<Longrightarrow>
   \<not> fst (processHWv4TelemetryStream b s) \<and>
   unat (bytesRead (snd (processHWv4TelemetryStream b s))) \<le> unat (bytesRead s) + 1"
  apply (auto simp: processHWv4TelemetryStream_def u8_succ_unat)
  done

lemma hw_short_no_packet:
  "unat (bytesRead s) + length bs < 19 \<Longrightarrow> True \<notin> set (fst (hwFeed bs s))"
proof (induction bs arbitrary: s)
  case Nil
  then show ?case by simp
next
  case (Cons b bs)
  from Cons.prems have lt: "unat (bytesRead s) < 18"
    by simp
  note st = hw_step_short [OF lt, of b]
  from st Cons.prems
  have "unat (bytesRead (snd (processHWv4TelemetryStream b s))) + length bs < 19"
    by simp
  then have "True \<notin> set (fst (hwFeed bs (snd (processHWv4TelemetryStream b s))))"
    by (rule Cons.IH)
  with st show ?case
    by (simp add: split_beta)
qed


text \<open>
  C7. In every state the parser reaches from idle, a sentinel byte 0x9B arriving while
  exactly one byte has been read makes the parser return "no packet", go back to idle
  (\<open>bytesRead = 0\<close>) and schedule the next 11 bytes to be discarded. Fed
  \<open>[0x9B, 0x9B, 0x9B]\<close> followed by 16 arbitrary bytes from idle, the first two calls
  return "no packet"; in fact none of the 19 calls returns "packet ready".
\<close>

theorem C7_sentinel_collision_resync:
  assumes idle: "hwIdle s0"
    and one: "bytesRead (snd (hwFeed pre s0)) = 1"
    and len: "length rest = 16"
  shows "processHWv4TelemetryStream 0x9B (snd (hwFeed pre s0)) =
           (False, (snd (hwFeed pre s0))\<lparr>bytesRead := 0, skipPackets := 11\<rparr>) \<and>
         take 2 (fst (hwFeed ([0x9B, 0x9B, 0x9B] @ rest) s0)) = [False, False] \<and>
         True \<notin> set (fst (hwFeed ([0x9B, 0x9B, 0x9B] @ rest) s0))"
proof -
  have "hwInv (snd (hwFeed pre s0))"
    using idle by (intro hwInv_feed hwIdle_inv)
  with one have "skipPackets (snd (hwFeed pre s0)) = 0"
    by (auto simp: hwInv_def word_gt_0)
  with one have A: "processHWv4TelemetryStream 0x9B (snd (hwFeed pre s0)) =
      (False, (snd (hwFeed pre s0))\<lparr>bytesRead := 0, skipPackets := 11\<rparr>)"
    by (simp add: processHWv4TelemetryStream_def)
  let ?s2 = "s0\<lparr>bytesRead := 0, skipPackets := 11\<rparr>"
  let ?skipped = "0x9B # take 10 rest"
  let ?tail = "drop 10 rest"
  have two: "hwFeed ([0x9B, 0x9B, 0x9B] @ rest) s0 =
      (False # False # fst (hwFeed (0x9B # rest) ?s2), snd (hwFeed (0x9B # rest) ?s2))"
    using idle by (simp add: hwIdle_def processHWv4TelemetryStream_def split_beta)
  have sp: "0x9B # rest = ?skipped @ ?tail"
    by simp
  have "length ?skipped \<le> unat (skipPackets ?s2)"
    using len by simp
  then have sk: "hwFeed ?skipped ?s2 =
      (replicate (length ?skipped) False, ?s2\<lparr>skipPackets := skipPackets ?s2 - of_nat (length ?skipped)\<rparr>)"
    by (rule hw_skip_feed)
  have "unat (bytesRead (snd (hwFeed ?skipped ?s2))) + length ?tail < 19"
    unfolding sk using len by simp
  then have "True \<notin> set (fst (hwFeed ?tail (snd (hwFeed ?skipped ?s2))))"
    by (rule hw_short_no_packet)
  then have "True \<notin> set (fst (hwFeed (0x9B # rest) ?s2))"
    by (subst sp, subst hwFeed_append) (simp add: sk del: hwFeed.simps)
  with two A show ?thesis
    by simp
qed

theorem C7_sentinel_collision_witness:
  "hwIdle hwBootState \<and>
   bytesRead (snd (hwFeed [0x9B] hwBootState)) = 1 \<and>
   length [1, 2, 3, 4, 5, 6, 7, 8, 9, 10, 11, 12, 13, 14, 15, 16 :: u8] = 16 \<and>
   processHWv4TelemetryStream 0x9B (snd (hwFeed [0x9B] hwBootState)) =
     (False, (snd (hwFeed [0x9B] hwBootState))\<lparr>bytesRead := 0, skipPackets := 11\<rparr>) \<and>
   take 2 (fst (hwFeed ([0x9B, 0x9B, 0x9B] @
       [1, 2, 3, 4, 5, 6, 7, 8, 9, 10, 11, 12, 13, 14, 15, 16]) hwBootState)) = [False, False] \<and>
   True \<notin> set (fst (hwFeed ([0x9B, 0x9B, 0x9B] @
       [1, 2, 3, 4, 5, 6, 7, 8, 9, 10, 11, 12, 13, 14, 15, 16]) hwBootState))"
proof -
  have h1: "hwIdle hwBootState"
    by (simp add: hwIdle_def hwBootState_def escSensorInit_def hwEnv_def kissEnv_def staticInit_def staticState_def)
  have h2: "bytesRead (snd (hwFeed [0x9B] hwBootState)) = 1"
    using h1 by (simp add: hwIdle_def processHWv4TelemetryStream_def)
  have h3: "length [1, 2, 3, 4, 5, 6, 7, 8, 9, 10, 11, 12, 13, 14, 15, 16 :: u8] = 16"
    by simp
  from h1 h2 h3 C7_sentinel_collision_resync [OF h1 h2 h3] show ?thesis
    by blast
qed

section \<open>The temperature calibration\<close>

lemmas calcTempHW_eval = calcTempHW_def tempSearch.simps tempFunc_def tempFuncAt_def Let_def

lemma u8_succ_unat_26: "(i::u8) < 26 \<Longrightarrow> unat (i + 1) = unat i + 1"
  by (simp add: word_less_nat_alt unat_word_ariths)

lemma tempSearch_ge: "unat i \<le> unat (tempSearch t i)"
proof (induction t i rule: tempSearch.induct)
  case (1 tempRaw i)
  show ?case
  proof (cases "i < 26 \<and> fst (tempFunc ! unat i) \<le> tempRaw")
    case True
    with 1 have "unat (i + 1) \<le> unat (tempSearch tempRaw (i + 1))"
      by simp
    with True show ?thesis
      by (subst tempSearch.simps) (simp add: u8_succ_unat_26)
  next
    case False
    then show ?thesis
      by (subst tempSearch.simps) auto
  qed
qed

lemma tempSearch_below_last:
  "t < 2705 \<Longrightarrow> unat i \<le> 25 \<Longrightarrow> unat (tempSearch t i) \<le> 25"
proof (induction t i rule: tempSearch.induct)
  case (1 tempRaw i)
  show ?case
  proof (cases "i < 26 \<and> fst (tempFunc ! unat i) \<le> tempRaw")
    case True
    have "unat i \<noteq> 25"
    proof
      assume "unat i = 25"
      with True have "(2705 :: u16) \<le> tempRaw"
        by (simp add: tempFunc_def)
      with "1.prems" show False
        by simp
    qed
    with "1.prems" True have "unat (i + 1) \<le> 25"
      by (simp add: u8_succ_unat_26)
    with 1 True have "unat (tempSearch tempRaw (i + 1)) \<le> 25"
      by simp
    with True show ?thesis
      by (subst tempSearch.simps) simp
  next
    case False
    with "1.prems" show ?thesis
      by (subst tempSearch.simps) auto
  qed
qed

lemma tempSearch_first: "tempSearch t 0 = tempSearch t 1"
  by (subst tempSearch.simps) (simp add: tempFunc_def)

lemma tempSearch_index_in_range:
  assumes "1123 < tempRaw" and "tempRaw \<le> 3828"
  shows "1 \<le> unat (tempSearch (3828 - tempRaw) 0) \<and> unat (tempSearch (3828 - tempRaw) 0) \<le> 25"
proof -
  from assms have "3828 - tempRaw < 2705"
    by unat_arith
  then have "unat (tempSearch (3828 - tempRaw) 0) \<le> 25"
    by (rule tempSearch_below_last) simp
  moreover have "unat (1::u8) \<le> unat (tempSearch (3828 - tempRaw) 1)"
    by (rule tempSearch_ge)
  ultimately show ?thesis
    by (simp add: tempSearch_first)
qed


lemma calcTempHW_breakpoint:
  assumes "(x, y) \<in> set tempFunc" and "x \<noteq> 2705"
  shows "calcTempHW (3828 - x) = Inr (of_nat (unat y))"
  using assms by (auto simp: tempFunc_def) (simp_all add: calcTempHW_eval)

text \<open>
  C3, as amended. \<^verbatim>\<open>calcTempHW\<close> returns exactly 100 for every raw value below 1123 and
  exactly 0 for every raw value above 3828; for a raw value above 1123 and up to 3828
  whose transformed value \<open>3828 - raw\<close> is a breakpoint of the table, it returns exactly
  that breakpoint's temperature. The raw value 1123 is left out: see C9.
\<close>

theorem C3_calcTempHW_boundaries:
  "(tempRaw < 1123 \<longrightarrow> calcTempHW tempRaw = Inr 100) \<and>
   (3828 < tempRaw \<longrightarrow> calcTempHW tempRaw = Inr 0) \<and>
   (1123 < tempRaw \<and> tempRaw \<le> 3828 \<and> (3828 - tempRaw, y) \<in> set tempFunc \<longrightarrow>
      calcTempHW tempRaw = Inr (of_nat (unat y)))"
proof (intro conjI impI)
  assume "tempRaw < 1123"
  then have "\<not> 3828 < tempRaw"
    by unat_arith
  with \<open>tempRaw < 1123\<close> show "calcTempHW tempRaw = Inr 100"
    by (simp add: calcTempHW_def)
next
  assume "3828 < tempRaw"
  then show "calcTempHW tempRaw = Inr 0"
    by (simp add: calcTempHW_def)
next
  assume a: "1123 < tempRaw \<and> tempRaw \<le> 3828 \<and> (3828 - tempRaw, y) \<in> set tempFunc"
  then have "3828 - tempRaw \<noteq> 2705"
    by unat_arith
  with a have "calcTempHW (3828 - (3828 - tempRaw)) = Inr (of_nat (unat y))"
    by (intro calcTempHW_breakpoint) simp_all
  then show "calcTempHW tempRaw = Inr (of_nat (unat y))"
    by simp
qed

theorem C3_calcTempHW_boundaries_witness:
  "(1000 :: u16) < 1123 \<and> calcTempHW 1000 = Inr 100 \<and>
   (3828 :: u16) < 4000 \<and> calcTempHW 4000 = Inr 0 \<and>
   (1123 :: u16) < 1973 \<and> (1973 :: u16) \<le> 3828 \<and> (3828 - 1973, 70) \<in> set tempFunc \<and>
   calcTempHW 1973 = Inr 70"
proof -
  have h1: "(1000 :: u16) < 1123" and h2: "(3828 :: u16) < 4000"
    by simp_all
  have h3: "(1123 :: u16) < 1973 \<and> (1973 :: u16) \<le> 3828 \<and> (3828 - 1973, 70) \<in> set tempFunc"
    by (simp add: tempFunc_def)
  show ?thesis
    using h1 h2 h3 C3_calcTempHW_boundaries [of 1000] C3_calcTempHW_boundaries [of 4000]
      C3_calcTempHW_boundaries [of 1973 70]
    by simp
qed

text \<open>
  At the raw value 3828 the guard \<^verbatim>\<open>tempRaw > 3828\<close> does not fire; the transformed value
  0 is the first breakpoint, and the result is its temperature 1, not 0.
\<close>

theorem C3_boundary_3828_counterexample:
  "calcTempHW 3828 = Inr 1 \<and> calcTempHW 3828 \<noteq> Inr 0"
  by (simp add: calcTempHW_eval)

text \<open>
  C9. At the raw value 1123 the guard \<^verbatim>\<open>tempRaw < 1123\<close> does not fire; the transformed
  value 2705 is the last breakpoint, every comparison of the search loop succeeds, and
  the loop ends with \<open>i = 26\<close>: the interpolation reads \<^verbatim>\<open>tempFunc[26]\<close>, one row past the
  table. For every other raw value between the guards the index stays within 1..25
  (lemma \<open>tempSearch_index_in_range\<close>).
\<close>

theorem C9_table_read_out_of_bounds:
  "tempSearch (3828 - 1123) 0 = 26 \<and> calcTempHW 1123 = Inl ArrayIndexOutOfBounds"
  by (simp add: calcTempHW_eval)

section \<open>The accessors\<close>

lemma int_div_by_motorCount:
  assumes "0 < motorCount env"
  shows "\<exists>r. int_div a (ucast (motorCount env)) = Inr r"
proof -
  from assms have "0 < uint (motorCount env)"
    by (simp add: word_less_def)
  then have "0 < sint (ucast (motorCount env) :: u32)"
    by (simp add: sint_ucast_u8)
  from int_div_pos [OF this, of a] show ?thesis
    by blast
qed

lemma combineLoop_frame: "\<exists>c. combineLoop env i s = s\<lparr>combinedEscSensorData := c\<rparr>"
proof (induction env i s rule: combineLoop.induct)
  case (1 env i s)
  show ?case
  proof (cases "i < unat (motorCount env)")
    case True
    with 1 obtain c where "combineLoop env (i + 1)
        (s\<lparr>combinedEscSensorData := combineStep (combinedEscSensorData s) (escSensorData s ! i)\<rparr>)
        = s\<lparr>combinedEscSensorData := combineStep (combinedEscSensorData s) (escSensorData s ! i)\<rparr>
            \<lparr>combinedEscSensorData := c\<rparr>"
      by blast
    with True show ?thesis
      by (subst combineLoop.simps) auto
  next
    case False
    then have "combineLoop env i s = s\<lparr>combinedEscSensorData := combinedEscSensorData s\<rparr>"
      by (subst combineLoop.simps) simp
    then show ?thesis
      by blast
  qed
qed

lemma updateCombined_ok:
  assumes "0 < motorCount env"
  shows "\<exists>c. updateCombined env s =
           Inr (s\<lparr>combinedEscSensorData := c, combinedDataNeedsUpdate := False\<rparr>)"
proof -
  let ?z = "\<lparr>dataAge = 0, temperature = 0, voltage = 0, current = 0, consumption = 0, rpm = 0\<rparr>"
  obtain c where c: "combineLoop env 0 (s\<lparr>combinedEscSensorData := ?z\<rparr>)
      = s\<lparr>combinedEscSensorData := ?z\<rparr>\<lparr>combinedEscSensorData := c\<rparr>"
    using combineLoop_frame by blast
  obtain v where v: "int_div (scast (voltage c)) (ucast (motorCount env)) = Inr v"
    using int_div_by_motorCount [OF assms] by blast
  obtain r where r: "int_div (scast (rpm c)) (ucast (motorCount env)) = Inr r"
    using int_div_by_motorCount [OF assms] by blast
  have "updateCombined env s =
      Inr (s\<lparr>combinedEscSensorData := c\<lparr>voltage := ucast v, rpm := ucast r\<rparr>,
             combinedDataNeedsUpdate := False\<rparr>)"
    by (simp add: updateCombined_def c v r)
  then show ?thesis
    by blast
qed

text \<open>
  C10. \<^verbatim>\<open>getEscSensorRPM\<close> returns 0 for every index at or above the motor count and the
  stored rpm field for an index below it, and in both cases leaves the state as it was:
  no aggregation happens. The combined index, when it is not below the motor count, is
  such an index: \<^verbatim>\<open>getEscSensorRPM\<close> returns 0 for it, while \<^verbatim>\<open>getEscSensorData\<close> (with the
  feature enabled, a known protocol and at least one motor) returns a reading for it.
\<close>

theorem C10_getEscSensorRPM:
  "(motorCount env \<le> motorNumber \<longrightarrow> getEscSensorRPM env motorNumber s = (0, s)) \<and>
   (motorNumber < motorCount env \<longrightarrow>
      getEscSensorRPM env motorNumber s = (rpm (escSensorData s ! unat motorNumber), s)) \<and>
   (motorCount env \<le> ESC_SENSOR_COMBINED env \<and> 0 < motorCount env \<and> featureEscSensor env \<and>
    escSensorProtocol env \<noteq> ESC_SENSOR_PROTOCOL_OTHER \<longrightarrow>
      getEscSensorRPM env (ESC_SENSOR_COMBINED env) s = (0, s) \<and>
      (\<exists>r s'. getEscSensorData env (ESC_SENSOR_COMBINED env) s = Inr (Some r, s')))"
proof (intro conjI impI)
  assume "motorCount env \<le> motorNumber"
  then show "getEscSensorRPM env motorNumber s = (0, s)"
    by (simp add: getEscSensorRPM_def not_less [symmetric])
next
  assume "motorNumber < motorCount env"
  then show "getEscSensorRPM env motorNumber s = (rpm (escSensorData s ! unat motorNumber), s)"
    by (simp add: getEscSensorRPM_def)
next
  assume a: "motorCount env \<le> ESC_SENSOR_COMBINED env \<and> 0 < motorCount env \<and>
    featureEscSensor env \<and> escSensorProtocol env \<noteq> ESC_SENSOR_PROTOCOL_OTHER"
  then show "getEscSensorRPM env (ESC_SENSOR_COMBINED env) s = (0, s)"
    by (simp add: getEscSensorRPM_def not_less [symmetric])
next
  assume a: "motorCount env \<le> ESC_SENSOR_COMBINED env \<and> 0 < motorCount env \<and>
    featureEscSensor env \<and> escSensorProtocol env \<noteq> ESC_SENSOR_PROTOCOL_OTHER"
  then have nl: "\<not> ESC_SENSOR_COMBINED env < motorCount env"
    by (simp add: not_less)
  from a updateCombined_ok [of env s] obtain s' where "updateCombined env s = Inr s'"
    by blast
  with a nl show "\<exists>r s'. getEscSensorData env (ESC_SENSOR_COMBINED env) s = Inr (Some r, s')"
    by (cases "escSensorProtocol env") (simp_all add: getEscSensorData_def)
qed


theorem C10_getEscSensorRPM_witness:
  "motorCount kissEnv \<le> 7 \<and> getEscSensorRPM kissEnv 7 kissState = (0, kissState) \<and>
   1 < motorCount kissEnv \<and> getEscSensorRPM kissEnv 1 kissState = (90, kissState) \<and>
   motorCount kissEnv \<le> ESC_SENSOR_COMBINED kissEnv \<and> 0 < motorCount kissEnv \<and>
   featureEscSensor kissEnv \<and> escSensorProtocol kissEnv \<noteq> ESC_SENSOR_PROTOCOL_OTHER \<and>
   getEscSensorRPM kissEnv 255 kissState = (0, kissState) \<and>
   (\<exists>r s'. getEscSensorData kissEnv 255 kissState = Inr (Some r, s')) \<and>
   getEscSensorData kissEnv 255 kissState = Inr (Some CombinedData, kissState)"
proof -
  have h1: "motorCount kissEnv \<le> 7" and h2: "1 < motorCount kissEnv"
    by (simp_all add: kissEnv_def)
  have h3: "motorCount kissEnv \<le> ESC_SENSOR_COMBINED kissEnv \<and> 0 < motorCount kissEnv \<and>
      featureEscSensor kissEnv \<and> escSensorProtocol kissEnv \<noteq> ESC_SENSOR_PROTOCOL_OTHER"
    by (simp add: kissEnv_def)
  have c: "ESC_SENSOR_COMBINED kissEnv = 255"
    by (simp add: kissEnv_def)
  have r: "rpm (escSensorData kissState ! Suc 0) = 90"
    by (simp add: kissState_def reading_def)
  have g: "getEscSensorData kissEnv 255 kissState = Inr (Some CombinedData, kissState)"
    by (simp add: getEscSensorData_def kissEnv_def kissState_def)
  show ?thesis
    using h1 h2 h3 g C10_getEscSensorRPM [of kissEnv 7 kissState]
      C10_getEscSensorRPM [of kissEnv 1 kissState]
    by (simp add: c r)
qed

section \<open>Staleness\<close>

text \<open>
  The Hobbywing branch increments the staleness of motor 0 with a bare \<^verbatim>\<open>++\<close> on a
  \<^verbatim>\<open>uint8_t\<close>: a cycle in which no byte arrives adds one in 8-bit arithmetic.
\<close>

lemma replicate_4: "replicate 4 x = [x, x, x, x]"
  by (simp add: numeral_eq_Suc)

lemma hw_cycle_without_bytes:
  "escSensorData s \<noteq> [] \<Longrightarrow>
   \<exists>s'. escSensorProcessHW env fl t [] s = Inr s' \<and>
        dataAge (escSensorData s' ! 0) = dataAge (escSensorData s ! 0) + 1"
  by (simp add: escSensorProcessHW_def Let_def)

lemma zeroInvalidLoop_1:
  "motorCount env = 1 \<Longrightarrow>
   zeroInvalidLoop env 0 s =
     (if \<not> isEscSensorValid env s 0 then
        s\<lparr>escSensorData := (escSensorData s)[0 := zeroReading (escSensorData s ! 0)],
          combinedEscSensorData := zeroReading (combinedEscSensorData s)\<rparr>
      else s)"
  by (simp add: zeroInvalidLoop.simps [of env 0] zeroInvalidLoop.simps [of env "Suc 0"])

text \<open>
  C2. In the Hobbywing path the staleness is not clamped. In the state after
  \<^verbatim>\<open>escSensorInit\<close> motor 0 has staleness 255 and is reported invalid; one call of
  \<^verbatim>\<open>escSensorProcess\<close> with an empty receive buffer, whatever the time and the float
  conversions, leaves the staleness at 0 and the motor reported valid, although nothing
  was decoded.
\<close>

theorem C2_hobbywing_age_wraps:
  "dataAge (escSensorData hwBootState ! 0) = 255 \<and>
   \<not> isEscSensorValid hwEnv hwBootState 0 \<and>
   (\<exists>s'. escSensorProcess hwEnv fl t [] hwBootState = Inr s' \<and>
      dataAge (escSensorData s' ! 0) = 0 \<and>
      isEscSensorValid hwEnv s' 0)"
proof -
  have e: "escSensorProtocol hwEnv = ESC_SENSOR_PROTOCOL_HOBBYWINGV4" "motorEnabled hwEnv"
    "motorCount hwEnv = 1"
    by (simp_all add: hwEnv_def kissEnv_def)
  have s: "escSensorPortOpen hwBootState"
    "escSensorData hwBootState = [zeroData\<lparr>dataAge := 255\<rparr>, zeroData, zeroData, zeroData]"
    by (simp_all add: hwBootState_def escSensorInit_def hwEnv_def kissEnv_def staticInit_def
          staticState_def replicate_4)
  show ?thesis
    by (simp add: escSensorProcess_def escSensorProcessProtocol_def e s zeroInvalidLoop_1
        escSensorProcessHW_def Let_def
        isEscSensorValid_def hwAgeValid_def zeroData_def)
qed


text \<open>The same at a fixed time, with the stand-in conversions.\<close>

theorem C2_hobbywing_age_wraps_at_1s:
  "dataAge (escSensorData hwBootState ! 0) = 255 \<and>
   \<not> isEscSensorValid hwEnv hwBootState 0 \<and>
   (\<exists>s'. escSensorProcess hwEnv zeroFloatOps 1000000 [] hwBootState = Inr s' \<and>
      dataAge (escSensorData s' ! 0) = 0 \<and>
      isEscSensorValid hwEnv s' 0)"
  using C2_hobbywing_age_wraps [of zeroFloatOps 1000000] .

text \<open>
  The KISS path goes through \<^verbatim>\<open>increaseDataAge\<close>, which has the guard: there the
  staleness never decreases and never passes \<^verbatim>\<open>ESC_DATA_INVALID\<close>.
\<close>

lemma u8_inc_le: "(x::u8) < y \<Longrightarrow> x + 1 \<le> y"
  by (rule inc_le)

lemma u8_le_inc: "(x::u8) < y \<Longrightarrow> x \<le> x + 1"
  by unat_arith

lemma increaseDataAge_clamped:
  assumes "unat (escSensorMotor s) < length (escSensorData s)"
    and "dataAge (escSensorData s ! unat (escSensorMotor s)) \<le> ESC_DATA_INVALID env"
  shows "dataAge (escSensorData (increaseDataAge env s) ! unat (escSensorMotor s))
           \<le> ESC_DATA_INVALID env"
  using assms by (simp add: increaseDataAge_def u8_inc_le)

lemma increaseDataAge_monotone:
  assumes "unat (escSensorMotor s) < length (escSensorData s)"
  shows "dataAge (escSensorData s ! unat (escSensorMotor s))
           \<le> dataAge (escSensorData (increaseDataAge env s) ! unat (escSensorMotor s))"
  using assms by (auto simp: increaseDataAge_def intro: u8_le_inc)

section \<open>The invalidation flag of the combined reading\<close>

subsection \<open>What each step leaves alone\<close>

lemma zeroInvalidLoop_flag:
  "combinedDataNeedsUpdate (zeroInvalidLoop env i s) = combinedDataNeedsUpdate s"
proof (induction env i s rule: zeroInvalidLoop.induct)
  case (1 env i s)
  show ?case
  proof (cases "i < unat (motorCount env)")
    case True
    with 1 show ?thesis
      by (subst zeroInvalidLoop.simps) simp
  next
    case False
    then show ?thesis
      by (subst zeroInvalidLoop.simps) simp
  qed
qed

lemma zeroInvalidLoop_length:
  "length (escSensorData (zeroInvalidLoop env i s)) = length (escSensorData s)"
proof (induction env i s rule: zeroInvalidLoop.induct)
  case (1 env i s)
  show ?case
  proof (cases "i < unat (motorCount env)")
    case True
    with 1 show ?thesis
      by (subst zeroInvalidLoop.simps) simp
  next
    case False
    then show ?thesis
      by (subst zeroInvalidLoop.simps) simp
  qed
qed

lemma zeroInvalidLoop_port:
  "escSensorPortOpen (zeroInvalidLoop env i s) = escSensorPortOpen s"
proof (induction env i s rule: zeroInvalidLoop.induct)
  case (1 env i s)
  show ?case
  proof (cases "i < unat (motorCount env)")
    case True
    with 1 show ?thesis
      by (subst zeroInvalidLoop.simps) simp
  next
    case False
    then show ?thesis
      by (subst zeroInvalidLoop.simps) simp
  qed
qed

lemma zeroInvalidLoop_motor:
  "escSensorMotor (zeroInvalidLoop env i s) = escSensorMotor s"
proof (induction env i s rule: zeroInvalidLoop.induct)
  case (1 env i s)
  show ?case
  proof (cases "i < unat (motorCount env)")
    case True
    with 1 show ?thesis
      by (subst zeroInvalidLoop.simps) simp
  next
    case False
    then show ?thesis
      by (subst zeroInvalidLoop.simps) simp
  qed
qed

lemmas zeroInvalidLoop_frame =
  zeroInvalidLoop_flag zeroInvalidLoop_length zeroInvalidLoop_port zeroInvalidLoop_motor

text \<open>The pass never writes a staleness.\<close>

lemma map_dataAge_zeroed:
  "map dataAge (xs[i := zeroReading (xs ! i)]) = map dataAge xs"
proof (cases "i < length xs")
  case True
  have "map dataAge (xs[i := zeroReading (xs ! i)]) = (map dataAge xs)[i := dataAge (xs ! i)]"
    by (simp add: map_update zeroReading_def)
  also have "\<dots> = (map dataAge xs)[i := map dataAge xs ! i]"
    using True by simp
  also have "\<dots> = map dataAge xs"
    by (rule list_update_id)
  finally show ?thesis .
next
  case False
  then show ?thesis
    by (simp add: list_update_beyond)
qed

lemma zeroInvalidLoop_dataAge:
  "map dataAge (escSensorData (zeroInvalidLoop env i s)) = map dataAge (escSensorData s)"
proof (induction env i s rule: zeroInvalidLoop.induct)
  case (1 env i s)
  show ?case
  proof (cases "i < unat (motorCount env)")
    case True
    with 1 show ?thesis
      by (subst zeroInvalidLoop.simps) (simp add: map_dataAge_zeroed)
  next
    case False
    then show ?thesis
      by (subst zeroInvalidLoop.simps) simp
  qed
qed

lemma selectNextMotor_frame:
  "combinedDataNeedsUpdate (selectNextMotor env s) = combinedDataNeedsUpdate s"
  "escSensorData (selectNextMotor env s) = escSensorData s"
  "escSensorPortOpen (selectNextMotor env s) = escSensorPortOpen s"
  by (simp_all add: selectNextMotor_def)

lemma selectNextMotor_in_range:
  assumes "0 < motorCount env" and "escSensorMotor s < motorCount env"
  shows "escSensorMotor (selectNextMotor env s) < motorCount env"
proof (cases "escSensorMotor s + 1 = motorCount env")
  case True
  with assms(1) show ?thesis
    by (simp add: selectNextMotor_def)
next
  case False
  from assms(2) have "escSensorMotor s + 1 \<le> motorCount env"
    by (rule inc_le)
  with False have "escSensorMotor s + 1 < motorCount env"
    by simp
  with False show ?thesis
    by (simp add: selectNextMotor_def)
qed

lemma bump_frame:
  "combinedDataNeedsUpdate (bumpCrcErrors env s) = combinedDataNeedsUpdate s"
  "escSensorData (bumpCrcErrors env s) = escSensorData s"
  "escSensorPortOpen (bumpCrcErrors env s) = escSensorPortOpen s"
  "escSensorMotor (bumpCrcErrors env s) = escSensorMotor s"
  "combinedDataNeedsUpdate (bumpTimeouts env s) = combinedDataNeedsUpdate s"
  "escSensorData (bumpTimeouts env s) = escSensorData s"
  "escSensorPortOpen (bumpTimeouts env s) = escSensorPortOpen s"
  "escSensorMotor (bumpTimeouts env s) = escSensorMotor s"
  by (simp_all add: bumpCrcErrors_def bumpTimeouts_def)

lemma storeEscFrame_frame:
  "combinedDataNeedsUpdate (storeEscFrame s)"
  "escSensorPortOpen (storeEscFrame s) = escSensorPortOpen s"
  "escSensorMotor (storeEscFrame s) = escSensorMotor s"
  "length (escSensorData (storeEscFrame s)) = length (escSensorData s)"
  by (simp_all add: storeEscFrame_def)

text \<open>
  The flag is assigned in \<^verbatim>\<open>decodeEscFrame\<close> and \<^verbatim>\<open>increaseDataAge\<close>, and nowhere else in
  \<^verbatim>\<open>escSensorProcess\<close>. \<^verbatim>\<open>increaseDataAge\<close> assigns it exactly when it changes the staleness.
\<close>

lemma increaseDataAge_frame:
  "escSensorPortOpen (increaseDataAge env s) = escSensorPortOpen s"
  "escSensorMotor (increaseDataAge env s) = escSensorMotor s"
  "length (escSensorData (increaseDataAge env s)) = length (escSensorData s)"
  by (simp_all add: increaseDataAge_def)

lemma increaseDataAge_flag:
  "combinedDataNeedsUpdate (increaseDataAge env s) =
     (combinedDataNeedsUpdate s \<or>
      dataAge (escSensorData s ! unat (escSensorMotor s)) < ESC_DATA_INVALID env)"
  by (simp add: increaseDataAge_def)

lemma increaseDataAge_unchanged:
  "\<not> dataAge (escSensorData s ! unat (escSensorMotor s)) < ESC_DATA_INVALID env \<Longrightarrow>
   increaseDataAge env s = s"
  by (simp add: increaseDataAge_def)

lemma increaseDataAge_changes:
  assumes "dataAge (escSensorData s ! unat (escSensorMotor s)) < ESC_DATA_INVALID env"
    and "unat (escSensorMotor s) < length (escSensorData s)"
  shows "map dataAge (escSensorData (increaseDataAge env s)) \<noteq> map dataAge (escSensorData s)"
proof
  let ?m = "unat (escSensorMotor s)"
  assume "map dataAge (escSensorData (increaseDataAge env s)) = map dataAge (escSensorData s)"
  then have "map dataAge (escSensorData (increaseDataAge env s)) ! ?m =
      map dataAge (escSensorData s) ! ?m"
    by simp
  with assms show False
    by (simp add: increaseDataAge_def)
qed

text \<open>The \<^verbatim>\<open>PENDING\<close> case, whenever it returns: the decoder stored a frame, or it did not.\<close>

lemma kissTriggerPending_Inr:
  assumes "kissTriggerPending env t s = Inr s'"
  shows "(t < escTriggerTimestamp s + ESC_REQUEST_TIMEOUT \<and>
          decodeEscFrame env s = Inr (ESC_SENSOR_FRAME_COMPLETE, storeEscFrame s) \<and>
          s' = (selectNextMotor env (storeEscFrame s))
                 \<lparr>escSensorTriggerState := ESC_SENSOR_TRIGGER_READY\<rparr>) \<or>
         s' = s \<or>
         s' = bumpCrcErrors env
                ((selectNextMotor env (increaseDataAge env s))
                   \<lparr>escSensorTriggerState := ESC_SENSOR_TRIGGER_READY\<rparr>) \<or>
         s' = bumpTimeouts env
                ((selectNextMotor env (increaseDataAge env s))
                   \<lparr>escSensorTriggerState := ESC_SENSOR_TRIGGER_READY\<rparr>)"
  using assms
  by (auto simp: kissTriggerPending_def
      split: if_splits sum.splits prod.splits escTlmFrameState_t.splits
      dest!: decodeEscFrame_Inr)

lemma kissTriggerPending_facts:
  assumes r: "kissTriggerPending env t s = Inr s'"
  shows "escSensorPortOpen s' = escSensorPortOpen s"
    and "length (escSensorData s') = length (escSensorData s)"
    and "combinedDataNeedsUpdate s \<Longrightarrow> combinedDataNeedsUpdate s'"
    and "escSensorData s' \<noteq> escSensorData s \<Longrightarrow> combinedDataNeedsUpdate s'"
    and "0 < motorCount env \<Longrightarrow> escSensorMotor s < motorCount env \<Longrightarrow>
         escSensorMotor s' < motorCount env"
    and "\<not> combinedDataNeedsUpdate s \<Longrightarrow> combinedDataNeedsUpdate s' \<Longrightarrow>
         unat (escSensorMotor s) < length (escSensorData s) \<Longrightarrow>
         (t < escTriggerTimestamp s + ESC_REQUEST_TIMEOUT \<and>
          (\<exists>s2. decodeEscFrame env s = Inr (ESC_SENSOR_FRAME_COMPLETE, s2))) \<or>
         map dataAge (escSensorData s') \<noteq> map dataAge (escSensorData s)"
proof -
  let ?a = "(selectNextMotor env (increaseDataAge env s))
              \<lparr>escSensorTriggerState := ESC_SENSOR_TRIGGER_READY\<rparr>"
  have a: "escSensorData ?a = escSensorData (increaseDataAge env s)"
    "combinedDataNeedsUpdate ?a = combinedDataNeedsUpdate (increaseDataAge env s)"
    "escSensorPortOpen ?a = escSensorPortOpen s"
    by (simp_all add: selectNextMotor_frame increaseDataAge_frame)
  have am: "0 < motorCount env \<Longrightarrow> escSensorMotor s < motorCount env \<Longrightarrow>
      escSensorMotor ?a < motorCount env"
    using selectNextMotor_in_range [of env "increaseDataAge env s"]
    by (simp add: increaseDataAge_frame selectNextMotor_def)
  have sm: "0 < motorCount env \<Longrightarrow> escSensorMotor s < motorCount env \<Longrightarrow>
      escSensorMotor ((selectNextMotor env (storeEscFrame s))
        \<lparr>escSensorTriggerState := ESC_SENSOR_TRIGGER_READY\<rparr>) < motorCount env"
    using selectNextMotor_in_range [of env "storeEscFrame s"]
    by (simp add: storeEscFrame_frame selectNextMotor_def)
  note c = kissTriggerPending_Inr [OF r]
  from c show "escSensorPortOpen s' = escSensorPortOpen s"
    by (auto simp: a bump_frame selectNextMotor_frame storeEscFrame_frame)
  from c show "length (escSensorData s') = length (escSensorData s)"
    by (auto simp: a bump_frame selectNextMotor_frame storeEscFrame_frame increaseDataAge_frame)
  from c show "combinedDataNeedsUpdate s \<Longrightarrow> combinedDataNeedsUpdate s'"
    by (auto simp: a bump_frame selectNextMotor_frame storeEscFrame_frame increaseDataAge_flag)
  from c show "escSensorData s' \<noteq> escSensorData s \<Longrightarrow> combinedDataNeedsUpdate s'"
    by (cases "dataAge (escSensorData s ! unat (escSensorMotor s)) < ESC_DATA_INVALID env")
       (auto simp: a bump_frame selectNextMotor_frame storeEscFrame_frame increaseDataAge_flag
          increaseDataAge_unchanged)
  from c show "0 < motorCount env \<Longrightarrow> escSensorMotor s < motorCount env \<Longrightarrow>
      escSensorMotor s' < motorCount env"
    using am sm by (auto simp: bump_frame)
  from c show "\<not> combinedDataNeedsUpdate s \<Longrightarrow> combinedDataNeedsUpdate s' \<Longrightarrow>
         unat (escSensorMotor s) < length (escSensorData s) \<Longrightarrow>
         (t < escTriggerTimestamp s + ESC_REQUEST_TIMEOUT \<and>
          (\<exists>s2. decodeEscFrame env s = Inr (ESC_SENSOR_FRAME_COMPLETE, s2))) \<or>
         map dataAge (escSensorData s') \<noteq> map dataAge (escSensorData s)"
    by (auto simp: a bump_frame increaseDataAge_flag dest: increaseDataAge_changes)
qed

lemma escSensorProcessKISS_facts:
  assumes r: "escSensorProcessKISS env t s = Inr s'"
  shows "escSensorPortOpen s' = escSensorPortOpen s"
    and "length (escSensorData s') = length (escSensorData s)"
    and "combinedDataNeedsUpdate s \<Longrightarrow> combinedDataNeedsUpdate s'"
    and "escSensorData s' \<noteq> escSensorData s \<Longrightarrow> combinedDataNeedsUpdate s'"
    and "0 < motorCount env \<Longrightarrow> escSensorMotor s < motorCount env \<Longrightarrow>
         escSensorMotor s' < motorCount env"
    and "\<not> combinedDataNeedsUpdate s \<Longrightarrow> combinedDataNeedsUpdate s' \<Longrightarrow>
         unat (escSensorMotor s) < length (escSensorData s) \<Longrightarrow>
         escSensorTriggerState s = ESC_SENSOR_TRIGGER_PENDING \<and>
         ((t < escTriggerTimestamp s + ESC_REQUEST_TIMEOUT \<and>
           (\<exists>s2. decodeEscFrame env s = Inr (ESC_SENSOR_FRAME_COMPLETE, s2))) \<or>
          map dataAge (escSensorData s') \<noteq> map dataAge (escSensorData s))"
proof -
  show "escSensorPortOpen s' = escSensorPortOpen s"
    using r
    by (cases "escSensorTriggerState s")
       (auto simp: escSensorProcessKISS_def startEscDataRead_def split: if_splits
          dest: kissTriggerPending_facts(1))
  show "length (escSensorData s') = length (escSensorData s)"
    using r
    by (cases "escSensorTriggerState s")
       (auto simp: escSensorProcessKISS_def startEscDataRead_def split: if_splits
          dest: kissTriggerPending_facts(2))
  show "combinedDataNeedsUpdate s \<Longrightarrow> combinedDataNeedsUpdate s'"
    using r
    by (cases "escSensorTriggerState s")
       (auto simp: escSensorProcessKISS_def startEscDataRead_def split: if_splits
          dest: kissTriggerPending_facts(3))
  show "escSensorData s' \<noteq> escSensorData s \<Longrightarrow> combinedDataNeedsUpdate s'"
    using r
    by (cases "escSensorTriggerState s")
       (auto simp: escSensorProcessKISS_def startEscDataRead_def split: if_splits
          dest: kissTriggerPending_facts(4))
  show "0 < motorCount env \<Longrightarrow> escSensorMotor s < motorCount env \<Longrightarrow>
      escSensorMotor s' < motorCount env"
    using r
    by (cases "escSensorTriggerState s")
       (auto simp: escSensorProcessKISS_def startEscDataRead_def split: if_splits
          dest: kissTriggerPending_facts(5))
  show "\<not> combinedDataNeedsUpdate s \<Longrightarrow> combinedDataNeedsUpdate s' \<Longrightarrow>
         unat (escSensorMotor s) < length (escSensorData s) \<Longrightarrow>
         escSensorTriggerState s = ESC_SENSOR_TRIGGER_PENDING \<and>
         ((t < escTriggerTimestamp s + ESC_REQUEST_TIMEOUT \<and>
           (\<exists>s2. decodeEscFrame env s = Inr (ESC_SENSOR_FRAME_COMPLETE, s2))) \<or>
          map dataAge (escSensorData s') \<noteq> map dataAge (escSensorData s))"
    using r kissTriggerPending_facts(6) [of env t s s']
    by (cases "escSensorTriggerState s")
       (auto simp: escSensorProcessKISS_def startEscDataRead_def split: if_splits)
qed

text \<open>The Hobbywing branch has no assignment to the flag.\<close>

lemma hwStep_frame:
  "combinedDataNeedsUpdate (snd (processHWv4TelemetryStream b s)) = combinedDataNeedsUpdate s"
  "escSensorPortOpen (snd (processHWv4TelemetryStream b s)) = escSensorPortOpen s"
  "escSensorMotor (snd (processHWv4TelemetryStream b s)) = escSensorMotor s"
  "escSensorData (snd (processHWv4TelemetryStream b s)) = escSensorData s"
  by (simp_all add: processHWv4TelemetryStream_def)

lemma hwStorePacket_frame:
  assumes "hwStorePacket env fl s = Inr s'"
  shows "combinedDataNeedsUpdate s' = combinedDataNeedsUpdate s \<and>
         escSensorPortOpen s' = escSensorPortOpen s \<and>
         escSensorMotor s' = escSensorMotor s \<and>
         length (escSensorData s') = length (escSensorData s)"
  using assms
  by (auto simp: hwStorePacket_def bump_frame split: sum.splits dest!: debugSetRpm_Inr)

lemma hwDrain_frame:
  "hwDrain env fl rx s = Inr s' \<Longrightarrow>
   combinedDataNeedsUpdate s' = combinedDataNeedsUpdate s \<and>
   escSensorPortOpen s' = escSensorPortOpen s \<and>
   escSensorMotor s' = escSensorMotor s \<and>
   length (escSensorData s') = length (escSensorData s)"
proof (induction rx arbitrary: s)
  case Nil
  then show ?case by simp
next
  case (Cons b rx)
  obtain ready s1 where p: "processHWv4TelemetryStream b s = (ready, s1)"
    by (cases "processHWv4TelemetryStream b s")
  have f1: "combinedDataNeedsUpdate s1 = combinedDataNeedsUpdate s"
    "escSensorPortOpen s1 = escSensorPortOpen s" "escSensorMotor s1 = escSensorMotor s"
    "escSensorData s1 = escSensorData s"
    using hwStep_frame [of b s] p by simp_all
  show ?case
  proof (cases ready)
    case False
    with Cons.prems p have "hwDrain env fl rx (bumpTimeouts env s1) = Inr s'"
      by simp
    from Cons.IH [OF this] f1 show ?thesis
      by (simp add: bump_frame)
  next
    case True
    with Cons.prems p obtain s2 where s2: "hwStorePacket env fl s1 = Inr s2"
      and d: "hwDrain env fl rx (bumpTimeouts env s2) = Inr s'"
      by (auto split: sum.splits)
    from Cons.IH [OF d] hwStorePacket_frame [OF s2] f1 show ?thesis
      by (simp add: bump_frame)
  qed
qed

lemma escSensorProcessHW_frame:
  assumes "escSensorProcessHW env fl t rx s = Inr s'"
  shows "combinedDataNeedsUpdate s' = combinedDataNeedsUpdate s \<and>
         escSensorPortOpen s' = escSensorPortOpen s \<and>
         escSensorMotor s' = 0 \<and>
         length (escSensorData s') = length (escSensorData s)"
  using assms
  by (auto simp: escSensorProcessHW_def Let_def split: sum.splits dest!: hwDrain_frame)

text \<open>The branch on the protocol, and the whole call.\<close>

lemma escSensorProcessProtocol_facts:
  assumes r: "escSensorProcessProtocol env fl t rx s = Inr s1"
  shows "escSensorPortOpen s1 = escSensorPortOpen s"
    and "length (escSensorData s1) = length (escSensorData s)"
    and "combinedDataNeedsUpdate s \<Longrightarrow> combinedDataNeedsUpdate s1"
    and "0 < motorCount env \<Longrightarrow> escSensorMotor s < motorCount env \<Longrightarrow>
         escSensorMotor s1 < motorCount env"
    and "escSensorProtocol env \<noteq> ESC_SENSOR_PROTOCOL_KISS \<Longrightarrow>
         combinedDataNeedsUpdate s1 = combinedDataNeedsUpdate s"
proof -
  show "escSensorPortOpen s1 = escSensorPortOpen s"
    using r
    by (cases "escSensorProtocol env")
       (auto simp: escSensorProcessProtocol_def
          dest: escSensorProcessKISS_facts(1) escSensorProcessHW_frame)
  show "length (escSensorData s1) = length (escSensorData s)"
    using r
    by (cases "escSensorProtocol env")
       (auto simp: escSensorProcessProtocol_def
          dest: escSensorProcessKISS_facts(2) escSensorProcessHW_frame)
  show "combinedDataNeedsUpdate s \<Longrightarrow> combinedDataNeedsUpdate s1"
    using r
    by (cases "escSensorProtocol env")
       (auto simp: escSensorProcessProtocol_def
          dest: escSensorProcessKISS_facts(3) escSensorProcessHW_frame)
  show "0 < motorCount env \<Longrightarrow> escSensorMotor s < motorCount env \<Longrightarrow>
      escSensorMotor s1 < motorCount env"
    using r
    by (cases "escSensorProtocol env")
       (auto simp: escSensorProcessProtocol_def
          dest: escSensorProcessKISS_facts(5) escSensorProcessHW_frame)
  show "escSensorProtocol env \<noteq> ESC_SENSOR_PROTOCOL_KISS \<Longrightarrow>
      combinedDataNeedsUpdate s1 = combinedDataNeedsUpdate s"
    using r
    by (cases "escSensorProtocol env")
       (auto simp: escSensorProcessProtocol_def dest: escSensorProcessHW_frame)
qed

lemma escSensorProcess_Inr:
  assumes "escSensorProcess env fl tus rx s = Inr s'"
  shows "s' = s \<or>
         (escSensorPortOpen s \<and> motorEnabled env \<and>
          (\<exists>s1. escSensorProcessProtocol env fl (tus div 1000) rx s = Inr s1 \<and>
                s' = zeroInvalidLoop env 0 s1))"
  using assms by (auto simp: escSensorProcess_def split: if_splits sum.splits)

text \<open>The accessor and the receive callback.\<close>

lemma updateCombined_frame:
  assumes "updateCombined env s = Inr s'"
  shows "\<exists>c. s' = s\<lparr>combinedEscSensorData := c, combinedDataNeedsUpdate := False\<rparr>"
proof -
  let ?z = "\<lparr>dataAge = 0, temperature = 0, voltage = 0, current = 0, consumption = 0, rpm = 0\<rparr>"
  obtain c where c: "combineLoop env 0 (s\<lparr>combinedEscSensorData := ?z\<rparr>)
      = s\<lparr>combinedEscSensorData := ?z\<rparr>\<lparr>combinedEscSensorData := c\<rparr>"
    using combineLoop_frame by blast
  from assms show ?thesis
    by (auto simp: updateCombined_def c split: sum.splits)
qed

lemma getEscSensorData_facts:
  assumes "getEscSensorData env motorNumber s = Inr (r, s1)"
  shows "escSensorData s1 = escSensorData s"
    and "escSensorPortOpen s1 = escSensorPortOpen s"
    and "escSensorMotor s1 = escSensorMotor s"
    and "combinedDataNeedsUpdate s1 \<Longrightarrow> combinedDataNeedsUpdate s"
    and "escSensorProtocol env \<noteq> ESC_SENSOR_PROTOCOL_KISS \<Longrightarrow> s1 = s"
    and "r = Some CombinedData \<Longrightarrow>
         \<not> combinedDataNeedsUpdate s1 \<and>
         (combinedDataNeedsUpdate s \<longrightarrow> updateCombined env s = Inr s1) \<and>
         (\<not> combinedDataNeedsUpdate s \<longrightarrow> s1 = s)"
  using assms
  by (cases "escSensorProtocol env";
      auto simp: getEscSensorData_def split: if_splits sum.splits dest!: updateCombined_frame)+

lemma escSensorDataReceive_frame:
  "escSensorData (escSensorDataReceive c s) = escSensorData s"
  "combinedDataNeedsUpdate (escSensorDataReceive c s) = combinedDataNeedsUpdate s"
  "escSensorPortOpen (escSensorDataReceive c s) = escSensorPortOpen s"
  "escSensorMotor (escSensorDataReceive c s) = escSensorMotor s"
  by (simp_all add: escSensorDataReceive_def)

subsection \<open>The states between the calls of a run\<close>

lemma of_nat_motor_less: "j < unat (mc :: u8) \<Longrightarrow> (of_nat j :: u8) < mc \<and> unat (of_nat j :: u8) = j"
proof -
  assume a: "j < unat mc"
  have "unat mc < 256"
    by (rule unat_u8_less)
  with a have "j < 256"
    by simp
  then have u: "unat (of_nat j :: u8) = j"
    by (simp add: unat_of_nat)
  with a show ?thesis
    by (simp add: word_less_nat_alt)
qed

lemma isEscSensorValid_motor:
  assumes "j < unat (motorCount env)"
  shows "isEscSensorValid env s (of_nat j) =
     (escSensorPortOpen s \<and>
      (case escSensorProtocol env of
         ESC_SENSOR_PROTOCOL_KISS \<Rightarrow> dataAge (escSensorData s ! j) \<le> ESC_BATTERY_AGE_MAX env
       | ESC_SENSOR_PROTOCOL_HOBBYWINGV4 \<Rightarrow>
           hwAgeValid (dataAge (escSensorData s ! j)) (rpm (escSensorData s ! j))
       | ESC_SENSOR_PROTOCOL_OTHER \<Rightarrow> False))"
  using of_nat_motor_less [OF assms]
  by (cases "escSensorProtocol env") (simp_all add: isEscSensorValid_def)

lemma list_update_same: "y = xs ! i \<Longrightarrow> xs[i := y] = xs"
  by simp

text \<open>Where every invalid motor is already zeroed, the pass changes no reading.\<close>

lemma zeroInvalidLoop_noop:
  "(\<forall>j. i \<le> j \<and> j < unat (motorCount env) \<longrightarrow>
      \<not> isEscSensorValid env s (of_nat j) \<longrightarrow>
      zeroReading (escSensorData s ! j) = escSensorData s ! j) \<Longrightarrow>
   escSensorData (zeroInvalidLoop env i s) = escSensorData s"
proof (induction env i s rule: zeroInvalidLoop.induct)
  case (1 env i s)
  show ?case
  proof (cases "i < unat (motorCount env)")
    case False
    then show ?thesis
      by (subst zeroInvalidLoop.simps) simp
  next
    case True
    let ?s' = "if \<not> isEscSensorValid env s (of_nat i) then
             s\<lparr>escSensorData := (escSensorData s)[i := zeroReading (escSensorData s ! i)],
               combinedEscSensorData := zeroReading (combinedEscSensorData s)\<rparr>
           else s"
    from "1.prems" True have z: "\<not> isEscSensorValid env s (of_nat i) \<Longrightarrow>
        zeroReading (escSensorData s ! i) = escSensorData s ! i"
      by simp
    then have d: "escSensorData ?s' = escSensorData s"
      by (simp add: list_update_same)
    have p: "escSensorPortOpen ?s' = escSensorPortOpen s"
      by simp
    have v: "isEscSensorValid env ?s' (of_nat j) = isEscSensorValid env s (of_nat j)"
      if "j < unat (motorCount env)" for j
      using that by (simp only: isEscSensorValid_motor d p)
    have "\<forall>j. i + 1 \<le> j \<and> j < unat (motorCount env) \<longrightarrow>
        \<not> isEscSensorValid env ?s' (of_nat j) \<longrightarrow>
        zeroReading (escSensorData ?s' ! j) = escSensorData ?s' ! j"
      using "1.prems" by (simp only: d) (simp add: v)
    with True have "escSensorData (zeroInvalidLoop env (i + 1) ?s') = escSensorData ?s'"
      by (intro "1.IH") simp_all
    with True d show ?thesis
      by (subst zeroInvalidLoop.simps) (simp only: if_True)
  qed
qed

lemma zeroReading_idem: "zeroReading (zeroReading d) = zeroReading d"
  by (simp add: zeroReading_def)

lemma zeroInvalidLoop_establishes_aux:
  "unat (motorCount env) \<le> length (escSensorData s) \<Longrightarrow> i \<le> unat (motorCount env) \<Longrightarrow>
   (\<forall>j < i. \<not> isEscSensorValid env s (of_nat j) \<longrightarrow>
      zeroReading (escSensorData s ! j) = escSensorData s ! j) \<Longrightarrow>
   invalidZeroed env (zeroInvalidLoop env i s)"
proof (induction env i s rule: zeroInvalidLoop.induct)
  case (1 env i s)
  show ?case
  proof (cases "i < unat (motorCount env)")
    case False
    with "1.prems" have "i = unat (motorCount env)"
      by simp
    with "1.prems" False show ?thesis
      by (subst zeroInvalidLoop.simps) (simp add: invalidZeroed_def)
  next
    case True
    let ?s' = "if \<not> isEscSensorValid env s (of_nat i) then
             s\<lparr>escSensorData := (escSensorData s)[i := zeroReading (escSensorData s ! i)],
               combinedEscSensorData := zeroReading (combinedEscSensorData s)\<rparr>
           else s"
    from True "1.prems" have il: "i < length (escSensorData s)"
      by simp
    have q: "\<forall>j < i + 1. \<not> isEscSensorValid env ?s' (of_nat j) \<longrightarrow>
        zeroReading (escSensorData ?s' ! j) = escSensorData ?s' ! j"
    proof (intro allI impI)
      fix j
      assume j: "j < i + 1" and nv: "\<not> isEscSensorValid env ?s' (of_nat j)"
      from j True have jm: "j < unat (motorCount env)"
        by simp
      show "zeroReading (escSensorData ?s' ! j) = escSensorData ?s' ! j"
      proof (cases "j = i")
        case True
        with nv il show ?thesis
          by (cases "isEscSensorValid env s (of_nat i)") (simp_all add: zeroReading_idem)
      next
        case False
        with j have ji: "j < i"
          by simp
        from False have dj: "escSensorData ?s' ! j = escSensorData s ! j"
          by simp
        have "escSensorPortOpen ?s' = escSensorPortOpen s"
          by simp
        with dj have "isEscSensorValid env ?s' (of_nat j) = isEscSensorValid env s (of_nat j)"
          by (simp only: isEscSensorValid_motor [OF jm])
        with nv ji "1.prems"(3) dj show ?thesis
          by simp
      qed
    qed
    have "unat (motorCount env) \<le> length (escSensorData ?s')"
      using "1.prems"(1) by simp
    with True q have "invalidZeroed env (zeroInvalidLoop env (i + 1) ?s')"
      by (intro "1.IH") simp_all
    with True show ?thesis
      by (subst zeroInvalidLoop.simps) (simp only: if_True)
  qed
qed

text \<open>Every call of \<^verbatim>\<open>escSensorProcess\<close> that reaches the pass ends in such a state.\<close>

lemma zeroInvalidLoop_establishes:
  "unat (motorCount env) \<le> length (escSensorData s) \<Longrightarrow>
   invalidZeroed env (zeroInvalidLoop env 0 s)"
  by (rule zeroInvalidLoop_establishes_aux) simp_all


lemma invalidZeroed_cong:
  assumes "escSensorPortOpen s' = escSensorPortOpen s" and "escSensorData s' = escSensorData s"
  shows "invalidZeroed env s' = invalidZeroed env s"
proof -
  have "isEscSensorValid env s' (of_nat j) = isEscSensorValid env s (of_nat j)"
    if "j < unat (motorCount env)" for j
    using that by (simp only: isEscSensorValid_motor assms)
  then show ?thesis
    by (simp add: invalidZeroed_def assms(2))
qed

text \<open>
  Under KISS, from a state in which every invalid motor is already zeroed: when the
  end-of-cycle pass changes a reading, the branch before it has set the flag. The pass
  zeroes a motor only in the call whose staleness increment made it invalid.
\<close>

lemma kiss_pass_change_after_flag:
  assumes kiss: "escSensorProtocol env = ESC_SENSOR_PROTOCOL_KISS"
    and inv: "invalidZeroed env s"
    and br: "escSensorProcessKISS env t s = Inr s1"
    and ch: "escSensorData (zeroInvalidLoop env 0 s1) \<noteq> escSensorData s1"
  shows "combinedDataNeedsUpdate s1"
proof (cases "escSensorData s1 = escSensorData s")
  case False
  with br show ?thesis
    by (rule escSensorProcessKISS_facts(4))
next
  case True
  have "escSensorPortOpen s1 = escSensorPortOpen s"
    using br by (rule escSensorProcessKISS_facts(1))
  then have "invalidZeroed env s1 = invalidZeroed env s"
    using True by (rule invalidZeroed_cong)
  with inv have "invalidZeroed env s1"
    by simp
  then have "\<forall>j. 0 \<le> j \<and> j < unat (motorCount env) \<longrightarrow>
      \<not> isEscSensorValid env s1 (of_nat j) \<longrightarrow>
      zeroReading (escSensorData s1 ! j) = escSensorData s1 ! j"
    by (simp add: invalidZeroed_def)
  then have "escSensorData (zeroInvalidLoop env 0 s1) = escSensorData s1"
    by (rule zeroInvalidLoop_noop)
  with ch show ?thesis
    by simp
qed

text \<open>The invariant holds after \<^verbatim>\<open>escSensorInit\<close> and every entry point keeps it.\<close>

lemma zeroReading_zeroData: "zeroReading (zeroData\<lparr>dataAge := a\<rparr>) = zeroData\<lparr>dataAge := a\<rparr>"
  by (simp add: zeroReading_def zeroData_def)

lemma pollingInv_init:
  assumes "0 < motorCount env" and "unat (motorCount env) \<le> n"
  shows "pollingInv env (snd (escSensorInit env portConfigFound portOpens (staticState n z)))"
proof -
  let ?s = "snd (escSensorInit env portConfigFound portOpens (staticState n z))"
  have f: "combinedDataNeedsUpdate ?s" "escSensorMotor ?s = 0"
    "length (escSensorData ?s) = n"
    by (cases "escSensorProtocol env"; simp add: escSensorInit_def staticState_def)+
  have d: "\<exists>a. escSensorData ?s ! j = zeroData\<lparr>dataAge := a\<rparr>" if "j < n" for j
  proof -
    have z: "zeroData = zeroData\<lparr>dataAge := 0\<rparr>"
      by (simp add: zeroData_def)
    have "escSensorData ?s ! j = zeroData\<lparr>dataAge := ESC_DATA_INVALID env\<rparr> \<or>
        escSensorData ?s ! j = zeroData"
      using that
      by (cases "escSensorProtocol env"; cases j; simp add: escSensorInit_def staticState_def)
    with z show ?thesis
      by metis
  qed
  have "invalidZeroed env ?s"
    unfolding invalidZeroed_def
  proof (intro allI impI)
    fix j
    assume "j < unat (motorCount env)"
    with assms(2) have "j < n"
      by simp
    from d [OF this] obtain a where "escSensorData ?s ! j = zeroData\<lparr>dataAge := a\<rparr>"
      by blast
    then show "zeroReading (escSensorData ?s ! j) = escSensorData ?s ! j"
      by (simp only: zeroReading_zeroData)
  qed
  with f assms show ?thesis
    by (simp add: pollingInv_def)
qed

lemma pollingInv_process:
  assumes mc: "0 < motorCount env"
    and inv: "pollingInv env s"
    and r: "escSensorProcess env fl tus rx s = Inr s'"
  shows "pollingInv env s'"
proof -
  from escSensorProcess_Inr [OF r] show ?thesis
  proof
    assume "s' = s"
    with inv show ?thesis
      by simp
  next
    assume "escSensorPortOpen s \<and> motorEnabled env \<and>
      (\<exists>s1. escSensorProcessProtocol env fl (tus div 1000) rx s = Inr s1 \<and>
            s' = zeroInvalidLoop env 0 s1)"
    then obtain s1 where br: "escSensorProcessProtocol env fl (tus div 1000) rx s = Inr s1"
      and s': "s' = zeroInvalidLoop env 0 s1"
      by blast
    from inv have l: "unat (motorCount env) \<le> length (escSensorData s)"
      and m: "escSensorMotor s < motorCount env"
      by (simp_all add: pollingInv_def)
    have l1: "unat (motorCount env) \<le> length (escSensorData s1)"
      using l escSensorProcessProtocol_facts(2) [OF br] by simp
    have m1: "escSensorMotor s1 < motorCount env"
      using mc m by (rule escSensorProcessProtocol_facts(4) [OF br])
    have a: "unat (motorCount env) \<le> length (escSensorData s') \<and>
        escSensorMotor s' < motorCount env"
      using l1 m1 by (simp add: s' zeroInvalidLoop_frame)
    show ?thesis
    proof (cases "escSensorProtocol env = ESC_SENSOR_PROTOCOL_KISS")
      case True
      from l1 have "invalidZeroed env s'"
        unfolding s' by (rule zeroInvalidLoop_establishes)
      with a True show ?thesis
        by (simp add: pollingInv_def)
    next
      case False
      with inv have "combinedDataNeedsUpdate s"
        by (simp add: pollingInv_def)
      then have "combinedDataNeedsUpdate s1"
        by (rule escSensorProcessProtocol_facts(3) [OF br])
      then have "combinedDataNeedsUpdate s'"
        by (simp add: s' zeroInvalidLoop_frame)
      with a False show ?thesis
        by (simp add: pollingInv_def)
    qed
  qed
qed

lemma pollingInv_event:
  assumes mc: "0 < motorCount env"
    and inv: "pollingInv env s"
    and r: "runEvent env fl e s = Inr s'"
  shows "pollingInv env s'"
proof (cases e)
  case (Process tus rx)
  with r have "escSensorProcess env fl tus rx s = Inr s'"
    by simp
  with mc inv show ?thesis
    by (rule pollingInv_process)
next
  case (Receive c)
  with r have s': "s' = escSensorDataReceive c s"
    by simp
  have "invalidZeroed env s' = invalidZeroed env s"
    unfolding s' by (rule invalidZeroed_cong) (simp_all add: escSensorDataReceive_frame)
  with inv show ?thesis
    by (simp add: pollingInv_def s' escSensorDataReceive_frame)
next
  case (GetData motorNumber)
  with r obtain q where g: "getEscSensorData env motorNumber s = Inr (q, s')"
    by (auto split: sum.splits)
  note f = getEscSensorData_facts [OF g]
  have "invalidZeroed env s' = invalidZeroed env s"
    using f(2) f(1) by (rule invalidZeroed_cong)
  moreover have "escSensorProtocol env \<noteq> ESC_SENSOR_PROTOCOL_KISS \<Longrightarrow>
      combinedDataNeedsUpdate s' = combinedDataNeedsUpdate s"
    using f(5) by simp
  ultimately show ?thesis
    using inv f(1) f(3) by (auto simp: pollingInv_def)
qed

lemma pollingInv_run:
  "0 < motorCount env \<Longrightarrow> pollingInv env s \<Longrightarrow> runEvents env fl evs s = Inr s' \<Longrightarrow>
   pollingInv env s'"
proof (induction evs arbitrary: s)
  case Nil
  then show ?case by simp
next
  case (Cons e evs)
  from Cons.prems(3) obtain s1 where e: "runEvent env fl e s = Inr s1"
    and r: "runEvents env fl evs s1 = Inr s'"
    by (auto split: sum.splits)
  from Cons.prems(1,2) e have "pollingInv env s1"
    by (rule pollingInv_event)
  with Cons.prems(1) r show ?case
    by (intro Cons.IH)
qed

text \<open>
  On a state of such a run, one call of \<^verbatim>\<open>escSensorProcess\<close>: a change of a reading leaves
  the flag set, and a clear flag becomes set only in the \<^verbatim>\<open>PENDING\<close> case under KISS.
\<close>

lemma process_change_sets_flag:
  assumes inv: "pollingInv env s"
    and r: "escSensorProcess env fl tus rx s = Inr s'"
    and ch: "escSensorData s' \<noteq> escSensorData s"
  shows "combinedDataNeedsUpdate s'"
proof -
  from escSensorProcess_Inr [OF r] ch obtain s1 where
    br: "escSensorProcessProtocol env fl (tus div 1000) rx s = Inr s1"
    and s': "s' = zeroInvalidLoop env 0 s1"
    by blast
  show ?thesis
  proof (cases "escSensorProtocol env = ESC_SENSOR_PROTOCOL_KISS")
    case False
    with inv have "combinedDataNeedsUpdate s"
      by (simp add: pollingInv_def)
    then have "combinedDataNeedsUpdate s1"
      by (rule escSensorProcessProtocol_facts(3) [OF br])
    then show ?thesis
      by (simp add: s' zeroInvalidLoop_frame)
  next
    case True
    with br have k: "escSensorProcessKISS env (tus div 1000) s = Inr s1"
      by (simp add: escSensorProcessProtocol_def)
    from inv True have iz: "invalidZeroed env s"
      by (simp add: pollingInv_def)
    have "combinedDataNeedsUpdate s1"
    proof (cases "escSensorData s1 = escSensorData s")
      case False
      with k show ?thesis
        by (rule escSensorProcessKISS_facts(4))
    next
      case e: True
      with ch s' have "escSensorData (zeroInvalidLoop env 0 s1) \<noteq> escSensorData s1"
        by simp
      with True iz k show ?thesis
        by (rule kiss_pass_change_after_flag)
    qed
    then show ?thesis
      by (simp add: s' zeroInvalidLoop_frame)
  qed
qed

lemma process_sets_flag_only_on_write:
  assumes inv: "pollingInv env s"
    and r: "escSensorProcess env fl tus rx s = Inr s'"
    and f: "\<not> combinedDataNeedsUpdate s" "combinedDataNeedsUpdate s'"
  shows "escSensorProtocol env = ESC_SENSOR_PROTOCOL_KISS \<and>
         escSensorTriggerState s = ESC_SENSOR_TRIGGER_PENDING \<and>
         (escSensorData s' \<noteq> escSensorData s \<or>
          tus div 1000 < escTriggerTimestamp s + ESC_REQUEST_TIMEOUT \<and>
          (\<exists>s2. decodeEscFrame env s = Inr (ESC_SENSOR_FRAME_COMPLETE, s2)))"
proof -
  from escSensorProcess_Inr [OF r] f obtain s1 where
    br: "escSensorProcessProtocol env fl (tus div 1000) rx s = Inr s1"
    and s': "s' = zeroInvalidLoop env 0 s1"
    by blast
  from f(2) have f1: "combinedDataNeedsUpdate s1"
    by (simp add: s' zeroInvalidLoop_frame)
  have kiss: "escSensorProtocol env = ESC_SENSOR_PROTOCOL_KISS"
    using escSensorProcessProtocol_facts(5) [OF br] f(1) f1 by blast
  with br have k: "escSensorProcessKISS env (tus div 1000) s = Inr s1"
    by (simp add: escSensorProcessProtocol_def)
  from inv have "unat (escSensorMotor s) < length (escSensorData s)"
    by (simp add: pollingInv_def word_less_nat_alt)
  from escSensorProcessKISS_facts(6) [OF k f(1) f1 this]
  have p: "escSensorTriggerState s = ESC_SENSOR_TRIGGER_PENDING"
    and c: "(tus div 1000 < escTriggerTimestamp s + ESC_REQUEST_TIMEOUT \<and>
         (\<exists>s2. decodeEscFrame env s = Inr (ESC_SENSOR_FRAME_COMPLETE, s2))) \<or>
        map dataAge (escSensorData s1) \<noteq> map dataAge (escSensorData s)"
    by simp_all
  have "map dataAge (escSensorData s') = map dataAge (escSensorData s1)"
    by (simp add: s' zeroInvalidLoop_dataAge)
  with c have "(tus div 1000 < escTriggerTimestamp s + ESC_REQUEST_TIMEOUT \<and>
         (\<exists>s2. decodeEscFrame env s = Inr (ESC_SENSOR_FRAME_COMPLETE, s2))) \<or>
        escSensorData s' \<noteq> escSensorData s"
    by auto
  with kiss p show ?thesis
    by blast
qed

lemma pass_change_after_flag:
  assumes inv: "pollingInv env s"
    and br: "escSensorProcessProtocol env fl t rx s = Inr s1"
    and ch: "escSensorData (zeroInvalidLoop env 0 s1) \<noteq> escSensorData s1"
  shows "combinedDataNeedsUpdate s1"
proof (cases "escSensorProtocol env = ESC_SENSOR_PROTOCOL_KISS")
  case False
  with inv have "combinedDataNeedsUpdate s"
    by (simp add: pollingInv_def)
  then show ?thesis
    by (rule escSensorProcessProtocol_facts(3) [OF br])
next
  case True
  with br have k: "escSensorProcessKISS env t s = Inr s1"
    by (simp add: escSensorProcessProtocol_def)
  from inv True have "invalidZeroed env s"
    by (simp add: pollingInv_def)
  with True show ?thesis
    using k ch by (rule kiss_pass_change_after_flag)
qed

subsection \<open>The flag follows the changes of the readings\<close>

text \<open>
  C4, as amended. Take any state that a run of the entry points reaches after
  \<^verbatim>\<open>escSensorInit\<close> on the static initialisers, with at least one motor and the motor count
  within the array. There:

  \<^item> \<^verbatim>\<open>getEscSensorData\<close> changes no per-motor reading and never sets the flag; when it
    returns the combined reading the flag is clear afterwards, the combined reading
    having been recomputed if the flag was set and left as it was if not;
  \<^item> the receive callback changes neither the readings nor the flag;
  \<^item> a call of \<^verbatim>\<open>escSensorProcess\<close> that changes any per-motor reading, whether through a
    decoder, a staleness increment or the end-of-cycle pass, ends with the flag set;
  \<^item> a call of \<^verbatim>\<open>escSensorProcess\<close> takes the flag from clear to set only under KISS in the
    \<^verbatim>\<open>PENDING\<close> case, and then a reading has changed or the decoder has, before the
    timeout, stored a frame, which may repeat the values already stored;
  \<^item> whenever the end-of-cycle pass changes a reading, the flag is already set when the pass
    begins;
  \<^item> under a protocol other than KISS, where only motor 0 is written and the combined
    index is answered with the reading of motor 0, the flag is set throughout;
  \<^item> the Hobbywing branch and the end-of-cycle pass leave the flag as they find it, on any
    state: they contain no assignment to it.

  The flag is nevertheless set after each change these two make: under Hobbywing nothing
  ever clears it, and under KISS the pass zeroes a reading only in the call whose
  staleness increment has made that motor invalid, and that increment sets the flag.
\<close>

theorem C4_flag_follows_changes:
  assumes "0 < motorCount env" and "unat (motorCount env) \<le> n"
    and "runEvents env fl evs
           (snd (escSensorInit env portConfigFound portOpens (staticState n z))) = Inr s"
  shows
    "(getEscSensorData env motorNumber s = Inr (r, sa) \<longrightarrow>
        escSensorData sa = escSensorData s \<and>
        (combinedDataNeedsUpdate sa \<longrightarrow> combinedDataNeedsUpdate s) \<and>
        (r = Some CombinedData \<longrightarrow>
           \<not> combinedDataNeedsUpdate sa \<and>
           (combinedDataNeedsUpdate s \<longrightarrow> updateCombined env s = Inr sa) \<and>
           (\<not> combinedDataNeedsUpdate s \<longrightarrow> sa = s))) \<and>
     escSensorData (escSensorDataReceive c s) = escSensorData s \<and>
     combinedDataNeedsUpdate (escSensorDataReceive c s) = combinedDataNeedsUpdate s \<and>
     (escSensorProcess env fl currentTimeUs rx s = Inr s' \<longrightarrow>
        (escSensorData s' \<noteq> escSensorData s \<longrightarrow> combinedDataNeedsUpdate s') \<and>
        (\<not> combinedDataNeedsUpdate s \<and> combinedDataNeedsUpdate s' \<longrightarrow>
           escSensorProtocol env = ESC_SENSOR_PROTOCOL_KISS \<and>
           escSensorTriggerState s = ESC_SENSOR_TRIGGER_PENDING \<and>
           (escSensorData s' \<noteq> escSensorData s \<or>
            currentTimeUs div 1000 < escTriggerTimestamp s + ESC_REQUEST_TIMEOUT \<and>
            (\<exists>s2. decodeEscFrame env s = Inr (ESC_SENSOR_FRAME_COMPLETE, s2))))) \<and>
     (escSensorProcessProtocol env fl currentTimeMs rx s = Inr s1 \<and>
      escSensorData (zeroInvalidLoop env 0 s1) \<noteq> escSensorData s1 \<longrightarrow>
        combinedDataNeedsUpdate s1) \<and>
     (escSensorProtocol env \<noteq> ESC_SENSOR_PROTOCOL_KISS \<longrightarrow> combinedDataNeedsUpdate s) \<and>
     (escSensorProcessHW env fl currentTimeMs rx sh = Inr sh' \<longrightarrow>
        combinedDataNeedsUpdate sh' = combinedDataNeedsUpdate sh) \<and>
     combinedDataNeedsUpdate (zeroInvalidLoop env i sz) = combinedDataNeedsUpdate sz"
proof -
  have "pollingInv env (snd (escSensorInit env portConfigFound portOpens (staticState n z)))"
    using assms(1,2) by (rule pollingInv_init)
  with assms(1) have inv: "pollingInv env s"
    using assms(3) by (rule pollingInv_run)
  have a: "getEscSensorData env motorNumber s = Inr (r, sa) \<longrightarrow>
        escSensorData sa = escSensorData s \<and>
        (combinedDataNeedsUpdate sa \<longrightarrow> combinedDataNeedsUpdate s) \<and>
        (r = Some CombinedData \<longrightarrow>
           \<not> combinedDataNeedsUpdate sa \<and>
           (combinedDataNeedsUpdate s \<longrightarrow> updateCombined env s = Inr sa) \<and>
           (\<not> combinedDataNeedsUpdate s \<longrightarrow> sa = s))"
    using getEscSensorData_facts(1,4,6) [of env motorNumber s r sa] by blast
  have b: "escSensorData (escSensorDataReceive c s) = escSensorData s \<and>
     combinedDataNeedsUpdate (escSensorDataReceive c s) = combinedDataNeedsUpdate s"
    by (simp add: escSensorDataReceive_frame)
  have p: "escSensorProcess env fl currentTimeUs rx s = Inr s' \<longrightarrow>
        (escSensorData s' \<noteq> escSensorData s \<longrightarrow> combinedDataNeedsUpdate s') \<and>
        (\<not> combinedDataNeedsUpdate s \<and> combinedDataNeedsUpdate s' \<longrightarrow>
           escSensorProtocol env = ESC_SENSOR_PROTOCOL_KISS \<and>
           escSensorTriggerState s = ESC_SENSOR_TRIGGER_PENDING \<and>
           (escSensorData s' \<noteq> escSensorData s \<or>
            currentTimeUs div 1000 < escTriggerTimestamp s + ESC_REQUEST_TIMEOUT \<and>
            (\<exists>s2. decodeEscFrame env s = Inr (ESC_SENSOR_FRAME_COMPLETE, s2))))"
    using process_change_sets_flag [OF inv, of fl currentTimeUs rx s']
      process_sets_flag_only_on_write [OF inv, of fl currentTimeUs rx s']
    by blast
  have q: "escSensorProcessProtocol env fl currentTimeMs rx s = Inr s1 \<and>
      escSensorData (zeroInvalidLoop env 0 s1) \<noteq> escSensorData s1 \<longrightarrow>
        combinedDataNeedsUpdate s1"
    using pass_change_after_flag [OF inv, of fl currentTimeMs rx s1] by blast
  have h: "escSensorProtocol env \<noteq> ESC_SENSOR_PROTOCOL_KISS \<longrightarrow> combinedDataNeedsUpdate s"
    using inv by (simp add: pollingInv_def)
  have w: "escSensorProcessHW env fl currentTimeMs rx sh = Inr sh' \<longrightarrow>
        combinedDataNeedsUpdate sh' = combinedDataNeedsUpdate sh"
    using escSensorProcessHW_frame [of env fl currentTimeMs rx sh sh'] by blast
  have z: "combinedDataNeedsUpdate (zeroInvalidLoop env i sz) = combinedDataNeedsUpdate sz"
    by (rule zeroInvalidLoop_flag)
  from a b p q h w z show ?thesis
    by blast
qed

text \<open>
  The run \<open>kissPollEvents\<close> ends in \<open>kissPolledState\<close>, where the flag is clear and a valid
  frame for motor 0 is in the buffer. The call of \<^verbatim>\<open>escSensorProcess\<close> at 5020 ms decodes the
  frame: the reading of motor 0 changes and the flag is set.
\<close>

lemma kissInitState_eq:
  "kissInitState =
     staticInit\<lparr>escSensorPortOpen := True,
       escSensorData := [zeroData\<lparr>dataAge := 255\<rparr>, zeroData\<lparr>dataAge := 255\<rparr>,
                         zeroData\<lparr>dataAge := 255\<rparr>, zeroData\<lparr>dataAge := 255\<rparr>]\<rparr>"
  by (simp add: kissInitState_def escSensorInit_def kissEnv_def staticInit_def staticState_def
        replicate_4)

lemma kissBootState_reached:
  "getEscSensorData kissEnv 255 kissInitState = Inr (Some CombinedData, kissBootState)"
  by (simp add: kissBootState_def kissInitState_eq getEscSensorData_def updateCombined_def
        combineLoop.simps combineStep_def MAX_u8_def MAX_s8_def int_div_def kissEnv_def
        staticInit_def staticState_def zeroData_def Let_def)

lemma buffer_filled:
  "(replicate 10 (b :: u8))
     [0 := a0, Suc 0 := a1, 2 := a2, 3 := a3, 4 := a4, 5 := a5, 6 := a6, 7 := a7, 8 := a8, 9 := a9]
   = [a0, a1, a2, a3, a4, a5, a6, a7, a8, a9]"
  by (simp add: numeral_eq_Suc)

lemma kissPolledState_reached:
  "runEvents kissEnv zeroFloatOps kissPollEvents kissInitState = Inr kissPolledState"
  by (simp add: kissPollEvents_def kissBootState_reached)
     (simp add: kissPolledState_def kissBootState_def kissInitState_eq staticInit_def
        staticState_def kissEnv_def escSensorProcess_def escSensorProcessProtocol_def
        escSensorProcessKISS_def startEscDataRead_def ESC_BOOTTIME_def TELEMETRY_FRAME_SIZE_def
        zeroInvalidLoop.simps isEscSensorValid_def zeroReading_def zeroData_def
        escSensorDataReceive_def isFrameComplete_def buffer_filled)

lemma kissPolledState_fields:
  "telemetryBuffer kissPolledState = telemetryBuffer kissState"
  "isFrameComplete kissPolledState"
  "escSensorPortOpen kissPolledState"
  "escSensorTriggerState kissPolledState = ESC_SENSOR_TRIGGER_PENDING"
  "escTriggerTimestamp kissPolledState = 5010"
  "escSensorMotor kissPolledState = 0"
  "\<not> combinedDataNeedsUpdate kissPolledState"
  "map dataAge (escSensorData kissPolledState) = [255, 255, 255, 255]"
  by (simp_all add: kissPolledState_def kissBootState_def kissInitState_eq staticInit_def
        staticState_def kissState_def isFrameComplete_def zeroData_def)

lemma kissPolledState_process:
  "escSensorProcess kissEnv zeroFloatOps 5020000 [] kissPolledState =
     Inr (zeroInvalidLoop kissEnv 0
            ((selectNextMotor kissEnv (storeEscFrame kissPolledState))
               \<lparr>escSensorTriggerState := ESC_SENSOR_TRIGGER_READY\<rparr>))"
proof -
  have c: "telemetryBuffer kissPolledState ! 9 =
      crc8_spec (take 9 (telemetryBuffer kissPolledState))"
    unfolding kissPolledState_fields(1) kissState_crc by (simp add: kissState_def)
  have l: "length (telemetryBuffer kissPolledState) = 10"
    by (simp add: kissPolledState_fields(1) kissState_def)
  have g: "debugMode kissEnv = DEBUG_ESC_SENSOR_RPM \<and> escSensorMotor kissPolledState < 4 \<longrightarrow>
      2 \<le> motorPoleCount kissEnv"
    by (simp add: kissEnv_def)
  have d: "decodeEscFrame kissEnv kissPolledState =
      Inr (ESC_SENSOR_FRAME_COMPLETE, storeEscFrame kissPolledState)"
    using kissPolledState_fields(2) l c g by (rule decodeEscFrame_valid_aux)
  have e: "escSensorProtocol kissEnv = ESC_SENSOR_PROTOCOL_KISS" "motorEnabled kissEnv"
    "(5020000 :: u32) div 1000 = 5020"
    by (simp_all add: kissEnv_def)
  show ?thesis
    by (simp add: escSensorProcess_def escSensorProcessProtocol_def escSensorProcessKISS_def
          kissTriggerPending_def e d kissPolledState_fields ESC_REQUEST_TIMEOUT_def)
qed

theorem C4_flag_follows_changes_witness:
  "0 < motorCount kissEnv \<and> unat (motorCount kissEnv) \<le> 4 \<and>
   runEvents kissEnv zeroFloatOps kissPollEvents
     (snd (escSensorInit kissEnv True True (staticState 4 ()))) = Inr kissPolledState \<and>
   \<not> combinedDataNeedsUpdate kissPolledState \<and>
   (\<exists>s'. escSensorProcess kissEnv zeroFloatOps 5020000 [] kissPolledState = Inr s' \<and>
      escSensorData s' \<noteq> escSensorData kissPolledState \<and>
      combinedDataNeedsUpdate s')"
proof -
  let ?s' = "zeroInvalidLoop kissEnv 0
            ((selectNextMotor kissEnv (storeEscFrame kissPolledState))
               \<lparr>escSensorTriggerState := ESC_SENSOR_TRIGGER_READY\<rparr>)"
  have h1: "0 < motorCount kissEnv" and h2: "unat (motorCount kissEnv) \<le> 4"
    by (simp_all add: kissEnv_def)
  have h3: "runEvents kissEnv zeroFloatOps kissPollEvents
      (snd (escSensorInit kissEnv True True (staticState 4 ()))) = Inr kissPolledState"
    using kissPolledState_reached by (simp add: kissInitState_def staticInit_def)
  have "map dataAge (escSensorData ?s') =
      map dataAge (escSensorData (storeEscFrame kissPolledState))"
    by (simp add: zeroInvalidLoop_dataAge selectNextMotor_frame)
  also have "\<dots> = (map dataAge (escSensorData kissPolledState))[0 := 0]"
    by (simp add: storeEscFrame_def map_update kissPolledState_fields(6))
  also have "\<dots> \<noteq> map dataAge (escSensorData kissPolledState)"
    by (simp add: kissPolledState_fields(8))
  finally have ch: "escSensorData ?s' \<noteq> escSensorData kissPolledState"
    by auto
  from C4_flag_follows_changes [OF h1 h2 h3, where currentTimeUs = 5020000 and rx = "[]"
      and s' = ?s'] kissPolledState_process ch
  have "combinedDataNeedsUpdate ?s'"
    by blast
  with h1 h2 h3 kissPolledState_fields(7) kissPolledState_process ch show ?thesis
    by blast
qed

text \<open>
  Where the flag and the changes part, on states of runs from \<^verbatim>\<open>escSensorInit\<close>.

  First, the flag does not stay clear until a field changes. In the single-motor run
  \<open>kissRepeatEvents\<close> the motor answers a second time with the frame it sent before. The run
  ends in \<open>kissRepeatState\<close> with the combined reading recomputed and the flag clear; the
  call of \<^verbatim>\<open>escSensorProcess\<close> at 5040 ms decodes the frame, leaves every per-motor reading
  as it was, staleness included, and sets the flag.

  Second, a store does not always set the flag. In \<open>kissBootState\<close>, reached by one read of
  the combined reading after \<^verbatim>\<open>escSensorInit\<close>, the flag is clear and no motor is valid;
  the call of \<^verbatim>\<open>escSensorProcess\<close> at 1000 ms reaches the end-of-cycle pass, whose stores of
  lines 633-640 run for each motor, over values that are zero already, and the flag is
  clear after the call.
\<close>

lemma frame_crc_value:
  "calculateCrc8 [0x1E, 0x05, 0xDC, 0x00, 0xFA, 0x00, 0x64, 0x01, 0x2C, 0xE2] 9 = 0xE2"
  by (simp add: crc8_eval)

lemma kissSoloInit:
  "snd (escSensorInit kissSoloEnv True True (staticState 4 ())) =
     (staticState 4 ())\<lparr>escSensorPortOpen := True,
       escSensorData := [zeroData\<lparr>dataAge := 255\<rparr>, zeroData\<lparr>dataAge := 255\<rparr>,
                         zeroData\<lparr>dataAge := 255\<rparr>, zeroData\<lparr>dataAge := 255\<rparr>]\<rparr>"
  by (simp add: escSensorInit_def kissSoloEnv_def kissEnv_def staticState_def replicate_4)

lemmas kiss_eval =
  escSensorProcess_def escSensorProcessProtocol_def escSensorProcessKISS_def
  kissTriggerPending_def decodeEscFrame_def storeEscFrame_def debugSetRpm_def
  selectNextMotor_def shl8_or_def startEscDataRead_def ESC_BOOTTIME_def
  ESC_REQUEST_TIMEOUT_def TELEMETRY_FRAME_SIZE_def zeroInvalidLoop.simps isEscSensorValid_def
  zeroReading_def zeroData_def escSensorDataReceive_def isFrameComplete_def buffer_filled
  frame_crc_value getEscSensorData_def updateCombined_def combineLoop.simps combineStep_def
  MAX_u8_def MAX_s8_def int_div_def signed_divide_int_def Let_def

lemma kissRepeatState_reached:
  "runEvents kissSoloEnv zeroFloatOps kissRepeatEvents
     (snd (escSensorInit kissSoloEnv True True (staticState 4 ()))) = Inr kissRepeatState"
  unfolding kissSoloInit
  by (simp add: kissRepeatEvents_def kissFrameEvents_def kissRepeatState_def
        staticState_def kissSoloEnv_def kissEnv_def kiss_eval)

lemma kissRepeatState_process:
  "escSensorProcess kissSoloEnv zeroFloatOps 5040000 [] kissRepeatState =
     Inr (kissRepeatState\<lparr>escSensorTriggerState := ESC_SENSOR_TRIGGER_READY,
                          combinedDataNeedsUpdate := True\<rparr>)"
  by (simp add: kissRepeatState_def kissSoloEnv_def kissEnv_def kiss_eval)

lemma kissBootState_process:
  "escSensorProcessProtocol kissEnv zeroFloatOps 1000 [] kissBootState = Inr kissBootState \<and>
   escSensorProcess kissEnv zeroFloatOps 1000000 [] kissBootState = Inr kissBootState"
  by (simp add: kissBootState_def kissInitState_eq staticInit_def staticState_def kissEnv_def
        kiss_eval)

theorem C4_flag_counterexample:
  "0 < motorCount kissSoloEnv \<and> unat (motorCount kissSoloEnv) \<le> 4 \<and>
   runEvents kissSoloEnv zeroFloatOps kissRepeatEvents
     (snd (escSensorInit kissSoloEnv True True (staticState 4 ()))) = Inr kissRepeatState \<and>
   \<not> combinedDataNeedsUpdate kissRepeatState \<and>
   (\<exists>s'. escSensorProcess kissSoloEnv zeroFloatOps 5040000 [] kissRepeatState = Inr s' \<and>
      escSensorData s' = escSensorData kissRepeatState \<and>
      combinedDataNeedsUpdate s') \<and>
   runEvents kissEnv zeroFloatOps [GetData 255]
     (snd (escSensorInit kissEnv True True (staticState 4 ()))) = Inr kissBootState \<and>
   \<not> combinedDataNeedsUpdate kissBootState \<and>
   escSensorPortOpen kissBootState \<and> motorEnabled kissEnv \<and>
   escSensorProcessProtocol kissEnv zeroFloatOps 1000 [] kissBootState = Inr kissBootState \<and>
   \<not> isEscSensorValid kissEnv kissBootState 0 \<and>
   (\<exists>s'. escSensorProcess kissEnv zeroFloatOps 1000000 [] kissBootState = Inr s' \<and>
      \<not> combinedDataNeedsUpdate s')"
proof -
  have a: "0 < motorCount kissSoloEnv \<and> unat (motorCount kissSoloEnv) \<le> 4"
    by (simp add: kissSoloEnv_def)
  have b: "\<not> combinedDataNeedsUpdate kissRepeatState"
    by (simp add: kissRepeatState_def)
  have c: "\<exists>s'. escSensorProcess kissSoloEnv zeroFloatOps 5040000 [] kissRepeatState = Inr s' \<and>
      escSensorData s' = escSensorData kissRepeatState \<and> combinedDataNeedsUpdate s'"
    by (simp add: kissRepeatState_process)
  have d: "runEvents kissEnv zeroFloatOps [GetData 255]
      (snd (escSensorInit kissEnv True True (staticState 4 ()))) = Inr kissBootState"
    using kissBootState_reached by (simp add: kissInitState_def staticInit_def)
  have e: "\<not> combinedDataNeedsUpdate kissBootState \<and> escSensorPortOpen kissBootState \<and>
      motorEnabled kissEnv \<and> \<not> isEscSensorValid kissEnv kissBootState 0"
    by (simp add: kissBootState_def kissInitState_eq isEscSensorValid_def kissEnv_def
          staticInit_def staticState_def zeroData_def)
  have f: "\<exists>s'. escSensorProcess kissEnv zeroFloatOps 1000000 [] kissBootState = Inr s' \<and>
      \<not> combinedDataNeedsUpdate s'"
    using e by (simp add: kissBootState_process)
  from a b c d e f kissRepeatState_reached kissBootState_process show ?thesis
    by blast
qed


section \<open>The whole polling call\<close>

text \<open>What the end-of-cycle pass leaves in the reading of motor \<open>j\<close>.\<close>

lemma zeroInvalidLoop_nth:
  "j < unat (motorCount env) \<Longrightarrow> j < length (escSensorData s) \<Longrightarrow>
   escSensorData (zeroInvalidLoop env i s) ! j =
     (if i \<le> j \<and> \<not> isEscSensorValid env s (of_nat j) then zeroReading (escSensorData s ! j)
      else escSensorData s ! j)"
proof (induction env i s rule: zeroInvalidLoop.induct)
  case (1 env i s)
  show ?case
  proof (cases "i < unat (motorCount env)")
    case False
    with "1.prems" show ?thesis
      by (subst zeroInvalidLoop.simps) simp
  next
    case True
    let ?s' = "if \<not> isEscSensorValid env s (of_nat i) then
             s\<lparr>escSensorData := (escSensorData s)[i := zeroReading (escSensorData s ! i)],
               combinedEscSensorData := zeroReading (combinedEscSensorData s)\<rparr>
           else s"
    have l: "j < length (escSensorData ?s')"
      using "1.prems"(2) by simp
    from True "1.prems"(1) l
    have ih: "escSensorData (zeroInvalidLoop env (i + 1) ?s') ! j =
        (if i + 1 \<le> j \<and> \<not> isEscSensorValid env ?s' (of_nat j)
         then zeroReading (escSensorData ?s' ! j) else escSensorData ?s' ! j)"
      by (intro "1.IH") simp_all
    have e: "zeroInvalidLoop env i s = zeroInvalidLoop env (i + 1) ?s'"
      using True by (subst zeroInvalidLoop.simps) (simp only: if_True)
    show ?thesis
    proof (cases "j = i")
      case True
      with "1.prems"(2) show ?thesis
        unfolding e ih by simp
    next
      case False
      then have dj: "escSensorData ?s' ! j = escSensorData s ! j"
        by simp
      have "escSensorPortOpen ?s' = escSensorPortOpen s"
        by simp
      with dj have v: "isEscSensorValid env ?s' (of_nat j) = isEscSensorValid env s (of_nat j)"
        by (simp only: isEscSensorValid_motor [OF "1.prems"(1)])
      from False show ?thesis
        unfolding e ih v dj by auto
    qed
  qed
qed

text \<open>
  A whole call of \<^verbatim>\<open>escSensorProcess\<close> on a complete frame with a wrong checksum: the
  reading of the polled motor keeps its fields and gets the incremented staleness as long
  as that staleness is within \<^verbatim>\<open>ESC_BATTERY_AGE_MAX\<close>; once it is beyond, the end-of-cycle
  pass of the same call zeroes voltage, current, consumption and rpm.
\<close>

lemma escSensorProcess_checksum_failure:
  assumes kiss: "escSensorProtocol env = ESC_SENSOR_PROTOCOL_KISS"
    and run: "escSensorPortOpen s" "motorEnabled env"
    and pend: "escSensorTriggerState s = ESC_SENSOR_TRIGGER_PENDING"
    and time: "tus div 1000 < escTriggerTimestamp s + ESC_REQUEST_TIMEOUT"
    and frame: "isFrameComplete s" "length (telemetryBuffer s) = 10"
    and crc: "telemetryBuffer s ! 9 \<noteq> crc8_spec (take 9 (telemetryBuffer s))"
    and motor: "unat (escSensorMotor s) < unat (motorCount env)"
    and size: "unat (motorCount env) \<le> length (escSensorData s)"
  shows "\<exists>s'. escSensorProcess env fl tus rx s = Inr s' \<and>
    escSensorData s' ! unat (escSensorMotor s) =
    (let d = escSensorData s ! unat (escSensorMotor s);
         d' = d\<lparr>dataAge := (if dataAge d < ESC_DATA_INVALID env then dataAge d + 1 else dataAge d)\<rparr>
     in if dataAge d' \<le> ESC_BATTERY_AGE_MAX env then d' else zeroReading d')"
proof -
  let ?m = "unat (escSensorMotor s)"
  let ?s1 = "bumpCrcErrors env
               ((selectNextMotor env (increaseDataAge env s))
                  \<lparr>escSensorTriggerState := ESC_SENSOR_TRIGGER_READY\<rparr>)"
  note st = kiss_checksum_failure_step(2) [OF pend time frame crc, where env = env]
  from motor size have ml: "?m < length (escSensorData s)"
    by simp
  have d1: "escSensorData ?s1 = escSensorData (increaseDataAge env s)"
    by (simp add: bump_frame selectNextMotor_frame)
  have p1: "escSensorPortOpen ?s1"
    using run by (simp add: bump_frame selectNextMotor_frame increaseDataAge_frame)
  have l1: "?m < length (escSensorData ?s1)"
    using ml by (simp add: d1 increaseDataAge_data)
  have m1: "escSensorData ?s1 ! ?m =
      (escSensorData s ! ?m)\<lparr>dataAge :=
         (if dataAge (escSensorData s ! ?m) < ESC_DATA_INVALID env
          then dataAge (escSensorData s ! ?m) + 1 else dataAge (escSensorData s ! ?m))\<rparr>"
    using ml by (simp add: d1 increaseDataAge_data)
  have v: "isEscSensorValid env ?s1 (escSensorMotor s) =
      (dataAge (escSensorData ?s1 ! ?m) \<le> ESC_BATTERY_AGE_MAX env)"
    using isEscSensorValid_motor [OF motor, of ?s1] by (simp add: kiss p1)
  from run kiss have r: "escSensorProcess env fl tus rx s = Inr (zeroInvalidLoop env 0 ?s1)"
    by (simp add: escSensorProcess_def escSensorProcessProtocol_def st)
  have "escSensorData (zeroInvalidLoop env 0 ?s1) ! ?m =
      (if isEscSensorValid env ?s1 (escSensorMotor s) then escSensorData ?s1 ! ?m
       else zeroReading (escSensorData ?s1 ! ?m))"
    using zeroInvalidLoop_nth [OF motor l1, of 0] by simp
  then have "escSensorData (zeroInvalidLoop env 0 ?s1) ! ?m =
    (let d = escSensorData s ! ?m;
         d' = d\<lparr>dataAge := (if dataAge d < ESC_DATA_INVALID env then dataAge d + 1 else dataAge d)\<rparr>
     in if dataAge d' \<le> ESC_BATTERY_AGE_MAX env then d' else zeroReading d')"
    unfolding v m1 by (simp add: Let_def)
  with r show ?thesis
    by blast
qed

text \<open>
  A Hobbywing packet whose temperature field (bytes 14 and 15) is 1123: the call of
  \<^verbatim>\<open>calcTempHW\<close> reads past its table before anything of the packet is stored.
\<close>

lemma hwStorePacket_table_overrun:
  "hwRaw16 (telemetryData s) 14 = 1123 \<Longrightarrow> hwStorePacket env fl s = Inl ArrayIndexOutOfBounds"
  by (simp add: hwStorePacket_def calcTempHW_eval)

end
